theory Spec2Isabelle
  imports Complex_Main "HOL-Library.Sublist" "HOL-Library.Log_Nat"
begin

section \<open>Strings\<close>

text \<open>
  A character stands for a UTF-16 code unit below 256. On these, \<open>toLowerCase\<close> maps the
  capital letters \<open>A\<close> to \<open>Z\<close> and the capital letters of the Latin-1 range to their small
  forms, and the white space of a regular expression's \<open>\s\<close> is tab to carriage return,
  space and the no-break space.
\<close>

definition charCode :: "char \<Rightarrow> nat" where
  "charCode c = of_char c"

definition toLowerCaseChar :: "char \<Rightarrow> char" where
  "toLowerCaseChar c =
     (let n = charCode c in
      if (65 \<le> n \<and> n \<le> 90) \<or> (192 \<le> n \<and> n \<le> 214) \<or> (216 \<le> n \<and> n \<le> 222)
      then char_of (n + 32) else c)"

definition toLowerCase :: "string \<Rightarrow> string" where
  "toLowerCase s = map toLowerCaseChar s"

definition isWhitespace :: "char \<Rightarrow> bool" where
  "isWhitespace c = (let n = charCode c in (9 \<le> n \<and> n \<le> 13) \<or> n = 32 \<or> n = 160)"

definition isDigit :: "char \<Rightarrow> bool" where
  "isDigit c = (let n = charCode c in 48 \<le> n \<and> n \<le> 57)"

text \<open>\<open>s.startsWith(p)\<close> and \<open>s.includes(t)\<close>.\<close>

definition startsWith :: "string \<Rightarrow> string \<Rightarrow> bool" where
  "startsWith s p = prefix p s"

definition str_includes :: "string \<Rightarrow> string \<Rightarrow> bool" where
  "str_includes s t = sublist t s"

text \<open>
  \<open>s.split(/\s+/)\<close>: the pieces between maximal runs of white space. A run at the start or
  at the end of the string leaves an empty piece there, and the empty string has the one
  piece \<open>''\<close>.
\<close>

function splitWhitespace :: "string \<Rightarrow> string list" where
  "splitWhitespace [] = [[]]"
| "splitWhitespace (c # cs) =
     (if isWhitespace c then [] # splitWhitespace (dropWhile isWhitespace cs)
      else (case splitWhitespace cs of
              [] \<Rightarrow> [[c]]
            | t # ts \<Rightarrow> (c # t) # ts))"
  by pat_completeness auto
termination
  by (relation "measure length") (auto simp: less_Suc_eq_le length_dropWhile_le)

text \<open>\<open>xs.join(sep)\<close>.\<close>

fun joinWith :: "string \<Rightarrow> string list \<Rightarrow> string" where
  "joinWith sep [] = []"
| "joinWith sep [x] = x"
| "joinWith sep (x # y # ys) = x @ sep @ joinWith sep (y # ys)"


section \<open>Usage limiter (web/lib/usage/limit.ts)\<close>

text \<open>
  The limiter keeps one module-level map from identifier to \<open>{count, date}\<close>. The map is
  passed explicitly: every operation takes the store and returns the store it leaves behind.
  The wall clock and the process environment are inputs of the model. Counts are natural
  numbers (the source's numbers are exact for every count below \<open>2^53\<close>).
\<close>

record UsageEntry =
  count :: nat
  date :: nat

type_synonym usage_store = "string \<rightharpoonup> UsageEntry"

record usage_report =
  count_of :: nat
  limit_of :: nat

text \<open>What \<open>new Date()\<close> yields: the full year, the zero-based month, the day of the month.\<close>

record clock =
  fullYear :: nat
  month0 :: nat
  dayOfMonth :: nat

definition ANONYMOUS_LIMIT :: nat where
  "ANONYMOUS_LIMIT = 1"

definition AUTHENTICATED_LIMIT :: nat where
  "AUTHENTICATED_LIMIT = 5"

text \<open>
  \<open>parseInt(`${year}${month}${day}`)\<close> with month and day padded to two digits: the decimal
  number whose last four digits are month and day, for the months 0 to 11 and the days 1 to
  31 that a date has.
\<close>

definition getCurrentDateAsNumber :: "clock \<Rightarrow> nat" where
  "getCurrentDateAsNumber now = fullYear now * 10000 + (month0 now + 1) * 100 + dayOfMonth now"

definition getLimit :: "bool \<Rightarrow> nat" where
  "getLimit isAuthenticated = (if isAuthenticated then AUTHENTICATED_LIMIT else ANONYMOUS_LIMIT)"

definition getUsage :: "clock \<Rightarrow> string \<Rightarrow> bool \<Rightarrow> usage_store \<Rightarrow> usage_report" where
  "getUsage now identifier isAuthenticated usage =
     (let limit = getLimit isAuthenticated;
          currentDate = getCurrentDateAsNumber now
      in case usage identifier of
           None \<Rightarrow> \<lparr>count_of = 0, limit_of = limit\<rparr>
         | Some entry \<Rightarrow>
             if date entry \<noteq> currentDate then \<lparr>count_of = 0, limit_of = limit\<rparr>
             else \<lparr>count_of = count entry, limit_of = limit\<rparr>)"

text \<open>
  The first argument is the value of the environment variable
  \<open>NEXSUPPLY_DISABLE_USAGE_LIMITS\<close> (\<open>None\<close> when it is not set).
\<close>

definition incrementUsage ::
  "string option \<Rightarrow> clock \<Rightarrow> string \<Rightarrow> bool \<Rightarrow> usage_store \<Rightarrow> usage_report \<times> usage_store" where
  "incrementUsage disableFlag now identifier isAuthenticated usage =
     (let limit = getLimit isAuthenticated in
      if disableFlag = Some ''true'' then (\<lparr>count_of = 0, limit_of = limit\<rparr>, usage)
      else
        let currentDate = getCurrentDateAsNumber now in
        case usage identifier of
          None \<Rightarrow>
            (let newEntry = \<lparr>count = 1, date = currentDate\<rparr>
             in (\<lparr>count_of = count newEntry, limit_of = limit\<rparr>, usage(identifier \<mapsto> newEntry)))
        | Some entry \<Rightarrow>
            if date entry \<noteq> currentDate then
              (let newEntry = \<lparr>count = 1, date = currentDate\<rparr>
               in (\<lparr>count_of = count newEntry, limit_of = limit\<rparr>, usage(identifier \<mapsto> newEntry)))
            else
              (let entry' = entry\<lparr>count := count entry + 1\<rparr>
               in (\<lparr>count_of = count entry', limit_of = limit\<rparr>, usage(identifier \<mapsto> entry'))))"

text \<open>
  A sequence of \<open>incrementUsage\<close> calls, one per \<open>(identifier, isAuthenticated)\<close> pair, all made
  on the same calendar day; the reports come back in call order.
\<close>

fun incrementUsage_calls ::
  "string option \<Rightarrow> clock \<Rightarrow> (string \<times> bool) list \<Rightarrow> usage_store \<Rightarrow> usage_report list \<times> usage_store" where
  "incrementUsage_calls disableFlag now [] usage = ([], usage)"
| "incrementUsage_calls disableFlag now (c # cs) usage =
     (let (r, usage') = incrementUsage disableFlag now (fst c) (snd c) usage;
          (rs, usage'') = incrementUsage_calls disableFlag now cs usage'
      in (r # rs, usage''))"

text \<open>The count the store holds for an identifier on the current day (0 without a current entry).\<close>

definition count_today :: "clock \<Rightarrow> usage_store \<Rightarrow> string \<Rightarrow> nat" where
  "count_today now usage identifier =
     (case usage identifier of
        None \<Rightarrow> 0
      | Some entry \<Rightarrow> if date entry = getCurrentDateAsNumber now then count entry else 0)"

text \<open>The two exported operations of the module, as one interface over the store.\<close>

datatype limiter_op = GetUsage | IncrementUsage

fun limiter_call ::
  "limiter_op \<Rightarrow> string option \<Rightarrow> clock \<Rightarrow> string \<Rightarrow> bool \<Rightarrow> usage_store \<Rightarrow> usage_report \<times> usage_store" where
  "limiter_call GetUsage disableFlag now identifier isAuthenticated usage =
     (getUsage now identifier isAuthenticated usage, usage)"
| "limiter_call IncrementUsage disableFlag now identifier isAuthenticated usage =
     incrementUsage disableFlag now identifier isAuthenticated usage"

section \<open>Category resolver (web/lib/compliance.ts)\<close>

text \<open>
  The record of web/lib/types/compliance.ts; its field \<open>id\<close> is \<open>rule_id\<close> here. The rules
  that \<open>loadComplianceRules()\<close> returns (the \<open>categories\<close> array of the JSON document, or the
  empty array when the document is missing) are the first argument of each lookup; an
  optional argument that is left out is \<open>None\<close>.
\<close>

record CategoryComplianceRule =
  rule_id :: string
  label :: string
  exampleProducts :: "string list"
  targetMarkets :: "string list"
  typicalHtsCodes :: "string list"
  requiredRegulations :: "string list"
  testingRequirements :: "string list"
  highRiskFlags :: "string list"
  referenceLinks :: "string list"

text \<open>\<open>code.replace(/[^0-9.]/g, '')\<close>.\<close>

definition normalizeHtsCode :: "string \<Rightarrow> string" where
  "normalizeHtsCode code = filter (\<lambda>c. isDigit c \<or> c = CHR ''.'') code"

text \<open>The test applied to each entry of \<open>typicalHtsCodes\<close>, given the normalized query.\<close>

definition htsCodeMatches :: "string \<Rightarrow> string \<Rightarrow> bool" where
  "htsCodeMatches normalizedHtsCode code =
     (let normalizedCategoryCode = normalizeHtsCode code
      in startsWith normalizedHtsCode normalizedCategoryCode \<or>
         startsWith normalizedCategoryCode normalizedHtsCode)"

text \<open>The test applied to the target markets of a category once a market is given.\<close>

definition marketMatches :: "string \<Rightarrow> CategoryComplianceRule \<Rightarrow> bool" where
  "marketMatches market category =
     (let marketNormalized = toLowerCase market
      in list_ex (\<lambda>targetMarket. str_includes (toLowerCase targetMarket) marketNormalized \<or>
                                  str_includes marketNormalized (toLowerCase targetMarket))
           (targetMarkets category))"

fun htsCodeScan ::
  "string \<Rightarrow> string option \<Rightarrow> CategoryComplianceRule list \<Rightarrow> CategoryComplianceRule option" where
  "htsCodeScan normalizedHtsCode market [] = None"
| "htsCodeScan normalizedHtsCode market (category # rest) =
     (let matches = list_ex (htsCodeMatches normalizedHtsCode) (typicalHtsCodes category) in
      if matches then
        (case market of
           None \<Rightarrow> Some category
         | Some m \<Rightarrow>
             if m \<noteq> [] \<and> targetMarkets category \<noteq> [] then
               (if \<not> marketMatches m category
                then htsCodeScan normalizedHtsCode market rest
                else Some category)
             else Some category)
      else htsCodeScan normalizedHtsCode market rest)"

definition getComplianceByHtsCode ::
  "CategoryComplianceRule list \<Rightarrow> string \<Rightarrow> string option \<Rightarrow> CategoryComplianceRule option" where
  "getComplianceByHtsCode rules htsCode market =
     (let normalizedHtsCode = normalizeHtsCode htsCode
      in htsCodeScan normalizedHtsCode market rules)"

text \<open>The text of a category that the search terms are looked up in.\<close>

definition categoryAllText :: "CategoryComplianceRule \<Rightarrow> string" where
  "categoryAllText category =
     (let labelLower = toLowerCase (label category);
          examplesLower = toLowerCase (joinWith '' '' (exampleProducts category))
      in labelLower @ '' '' @ examplesLower)"

fun productNameScan ::
  "string list \<Rightarrow> string option \<Rightarrow> CategoryComplianceRule list \<Rightarrow> CategoryComplianceRule option" where
  "productNameScan searchTerms market [] = None"
| "productNameScan searchTerms market (category # rest) =
     (let allText = categoryAllText category;
          matches = list_ex (\<lambda>term. str_includes allText term \<and> length term > 2) searchTerms in
      if matches then
        (case market of
           None \<Rightarrow> Some category
         | Some m \<Rightarrow>
             if m \<noteq> [] \<and> targetMarkets category \<noteq> [] then
               (if \<not> marketMatches m category
                then productNameScan searchTerms market rest
                else Some category)
             else Some category)
      else productNameScan searchTerms market rest)"

definition getComplianceByProductName ::
  "CategoryComplianceRule list \<Rightarrow> string \<Rightarrow> string option \<Rightarrow> CategoryComplianceRule option" where
  "getComplianceByProductName rules productName market =
     (let searchTerms = splitWhitespace (toLowerCase productName)
      in productNameScan searchTerms market rules)"

text \<open>
  Whether a category passes the optional market filter of the lookups: a market that is left
  out or empty, and a category without target markets, filter nothing.
\<close>

definition marketAccepts :: "string option \<Rightarrow> CategoryComplianceRule \<Rightarrow> bool" where
  "marketAccepts market category =
     (case market of
        None \<Rightarrow> True
      | Some m \<Rightarrow> m = [] \<or> targetMarkets category = [] \<or> marketMatches m category)"

text \<open>
  The lookup of the request handler (web/app/api/analyze-product/route.ts, lines 82 to 88):
  by HTS code first, by product name when that finds nothing, both without a market.
\<close>

definition resolveComplianceHints ::
  "CategoryComplianceRule list \<Rightarrow> string \<Rightarrow> string \<Rightarrow> CategoryComplianceRule option" where
  "resolveComplianceHints rules hts_code product_name =
     (case getComplianceByHtsCode rules hts_code None of
        Some complianceHints \<Rightarrow> Some complianceHints
      | None \<Rightarrow> getComplianceByProductName rules product_name None)"

text \<open>A rule of the kind the knowledge store holds, for the examples below.\<close>

definition baby_teether_rule :: CategoryComplianceRule where
  "baby_teether_rule =
     \<lparr>rule_id = ''baby_teether'', label = ''Baby Teether'',
      exampleProducts = [''Silicone teether'', ''Wooden teething ring''],
      targetMarkets = [''US''], typicalHtsCodes = [''9503.00.00'', ''3924.90''],
      requiredRegulations = [''CPSIA (Consumer Product Safety Improvement Act)'', ''ASTM F963''],
      testingRequirements = [''Lead content''], highRiskFlags = [''Small parts''],
      referenceLinks = []\<rparr>"

definition tumbler_rule :: CategoryComplianceRule where
  "tumbler_rule =
     \<lparr>rule_id = ''stainless_steel_tumbler'', label = ''Stainless Steel Tumbler'',
      exampleProducts = [''Insulated tumbler''],
      targetMarkets = [''EU''], typicalHtsCodes = [''7323.93''],
      requiredRegulations = [''FDA 21 CFR food contact''],
      testingRequirements = [], highRiskFlags = [],
      referenceLinks = []\<rparr>"


section \<open>Numbers\<close>

text \<open>
  A number of the source is a double: not-a-number, an infinity, or a finite value, kept as the
  rational it stands for (the two zeros are one value; they print the same in a JSON
  response). \<open>toDouble\<close> rounds a rational to the nearest double, ties to the even
  significand, with 53 bits of significand, the smallest exponent \<open>-1022\<close> (below it the
  spacing stays \<open>2^-1074\<close>) and overflow to an infinity from \<open>2^1024\<close> on. Every arithmetic
  operation is the exact operation followed by this rounding.
\<close>

datatype jsnum = NaN | PosInfinity | NegInfinity | Finite rat

definition pow2 :: "int \<Rightarrow> rat" where
  "pow2 e = (if 0 \<le> e then 2 ^ nat e else 1 / 2 ^ nat (- e))"

definition roundHalfEven :: "rat \<Rightarrow> int" where
  "roundHalfEven q =
     (let f = \<lfloor>q\<rfloor>; r = q - of_int f
      in if r < 1 / 2 then f else if 1 / 2 < r then f + 1 else if even f then f else f + 1)"

text \<open>The exponent \<open>e\<close> with \<open>2^e \<le> q < 2^(e+1)\<close>, for a positive \<open>q\<close>.\<close>

definition binade :: "rat \<Rightarrow> int" where
  "binade q =
     (let (a, b) = quotient_of q; e = bitlen a - bitlen b
      in if pow2 e \<le> q then e else e - 1)"

definition toDouble :: "rat \<Rightarrow> jsnum" where
  "toDouble q =
     (if q = 0 then Finite 0
      else
        let a = \<bar>q\<bar>;
            e = max (binade a) (- 1022);
            ulp = pow2 (e - 52);
            m = roundHalfEven (a / ulp)
        in if 1024 \<le> e \<or> (e = 1023 \<and> m = 2 ^ 53)
           then (if 0 < q then PosInfinity else NegInfinity)
           else Finite (if 0 < q then of_int m * ulp else - (of_int m * ulp)))"

fun js_add :: "jsnum \<Rightarrow> jsnum \<Rightarrow> jsnum" where
  "js_add NaN y = NaN"
| "js_add x NaN = NaN"
| "js_add PosInfinity NegInfinity = NaN"
| "js_add NegInfinity PosInfinity = NaN"
| "js_add PosInfinity y = PosInfinity"
| "js_add NegInfinity y = NegInfinity"
| "js_add x PosInfinity = PosInfinity"
| "js_add x NegInfinity = NegInfinity"
| "js_add (Finite a) (Finite b) = toDouble (a + b)"

definition js_negate :: "jsnum \<Rightarrow> jsnum" where
  "js_negate x =
     (case x of NaN \<Rightarrow> NaN | PosInfinity \<Rightarrow> NegInfinity | NegInfinity \<Rightarrow> PosInfinity
      | Finite a \<Rightarrow> Finite (- a))"

fun js_mul :: "jsnum \<Rightarrow> jsnum \<Rightarrow> jsnum" where
  "js_mul NaN y = NaN"
| "js_mul x NaN = NaN"
| "js_mul (Finite a) (Finite b) = toDouble (a * b)"
| "js_mul (Finite a) y = (if a = 0 then NaN else if 0 < a then y else js_negate y)"
| "js_mul x (Finite b) = (if b = 0 then NaN else if 0 < b then x else js_negate x)"
| "js_mul PosInfinity y = y"
| "js_mul NegInfinity y = js_negate y"

text \<open>
  \<open>parseFloat\<close> on a string of digits, dots and minus signs, which is all that
  \<open>parseCurrency\<close> hands to it: an optional minus sign, then the longest run of digits with
  at most one dot in or around it; what follows is ignored, and without any digit the result is
  not-a-number. The decimal value read is rounded to the nearest double.
\<close>

definition digitsValue :: "string \<Rightarrow> int" where
  "digitsValue ds = foldl (\<lambda>n c. 10 * n + (int (charCode c) - 48)) 0 ds"

definition parseFloat :: "string \<Rightarrow> jsnum" where
  "parseFloat s =
     (let negative = (case s of [] \<Rightarrow> False | c # cs \<Rightarrow> c = CHR ''-'');
          unsigned = (if negative then tl s else s);
          integerDigits = takeWhile isDigit unsigned;
          afterInteger = dropWhile isDigit unsigned;
          fractionDigits =
            (case afterInteger of
               [] \<Rightarrow> []
             | c # cs \<Rightarrow> if c = CHR ''.'' then takeWhile isDigit cs else [])
      in if integerDigits = [] \<and> fractionDigits = [] then NaN
         else
           let mv = of_int (digitsValue (integerDigits @ fractionDigits)) / 10 ^ length fractionDigits
           in toDouble (if negative then - mv else mv))"


section \<open>Testing-cost estimate (web/lib/regulation/testCost.ts)\<close>

record TestingCost =
  test :: string
  low :: jsnum
  high :: jsnum

text \<open>The two static tables, in the order of their keys.\<close>

definition testingCostTable :: "(string \<times> TestingCost) list" where
  "testingCostTable =
     [(''CPSIA Lead Content'', \<lparr>test = ''CPSIA Lead Content'', low = Finite 150, high = Finite 250\<rparr>),
      (''CPSIA Phthalates'', \<lparr>test = ''CPSIA Phthalates'', low = Finite 300, high = Finite 450\<rparr>),
      (''CPSIA Tracking Label'',
         \<lparr>test = ''CPSIA Tracking Label Review'', low = Finite 100, high = Finite 200\<rparr>),
      (''ASTM F963 Mechanical'',
         \<lparr>test = ''ASTM F963 Mechanical Hazards'', low = Finite 180, high = Finite 320\<rparr>),
      (''ASTM F963 Flammability'',
         \<lparr>test = ''ASTM F963 Flammability'', low = Finite 120, high = Finite 200\<rparr>),
      (''ASTM F963 Heavy Metals'',
         \<lparr>test = ''ASTM F963 Heavy Metals'', low = Finite 250, high = Finite 400\<rparr>),
      (''FDA 21 CFR Food Grade'',
         \<lparr>test = ''FDA 21 CFR Food-Grade Material Testing'', low = Finite 400, high = Finite 700\<rparr>)]"

definition regulationToTestMap :: "(string \<times> string list) list" where
  "regulationToTestMap =
     [(''cpsia'', [''CPSIA Lead Content'', ''CPSIA Phthalates'', ''CPSIA Tracking Label'']),
      (''astm-f963'',
         [''ASTM F963 Mechanical'', ''ASTM F963 Flammability'', ''ASTM F963 Heavy Metals'']),
      (''fda-21-cfr'', [''FDA 21 CFR Food Grade''])]"

text \<open>\<open>requiredTests.add(test)\<close> on a set that keeps its elements in the order they came.\<close>

definition Set_add :: "'a \<Rightarrow> 'a list \<Rightarrow> 'a list" where
  "Set_add x xs = (if x \<in> set xs then xs else xs @ [x])"

text \<open>
  The first loop of \<open>estimateTestingCost\<close>, which collects the names of the required tests:
  the body of its loop over the keys, then the two loops.
\<close>

definition addTestsForKey :: "string \<Rightarrow> string list \<Rightarrow> string \<Rightarrow> string list" where
  "addTestsForKey lowerCaseReg requiredTests key =
     (if str_includes lowerCaseReg key then
        (case map_of regulationToTestMap key of
           Some tests \<Rightarrow> foldl (\<lambda>requiredTests test. Set_add test requiredTests) requiredTests tests
         | None \<Rightarrow> requiredTests)
      else requiredTests)"

definition requiredTestsOf :: "string list \<Rightarrow> string list" where
  "requiredTestsOf regulations =
     (let regulationKeys = map fst regulationToTestMap in
      foldl (\<lambda>requiredTests reg.
               let lowerCaseReg = toLowerCase reg
               in foldl (addTestsForKey lowerCaseReg) requiredTests regulationKeys)
        [] regulations)"

definition estimateTestingCost :: "CategoryComplianceRule \<Rightarrow> TestingCost list" where
  "estimateTestingCost complianceRule =
     (let requiredTests = requiredTestsOf (requiredRegulations complianceRule) in
      foldl (\<lambda>costEstimate testName.
               case map_of testingCostTable testName of
                 Some cost \<Rightarrow> costEstimate @ [cost]
               | None \<Rightarrow> costEstimate)
        [] requiredTests)"


section \<open>Factory vetting hints (web/lib/factoryVetting.ts)\<close>

text \<open>The record of web/lib/types/factoryVetting.ts; \<open>id\<close> and \<open>label\<close> are prefixed here.\<close>

record CategoryFactoryVettingHints =
  hints_id :: string
  hints_label :: string
  typicalSupplierTypes :: "string list"
  mustHaveCertificates :: "string list"
  niceToHaveCertificates :: "string list"
  sampleQuestionsToFactory :: "string list"
  commonRedFlags :: "string list"
  recommendedAlibabaFilters :: "string list"

definition getFactoryVettingByCategory ::
  "CategoryFactoryVettingHints list \<Rightarrow> string \<Rightarrow> CategoryFactoryVettingHints option" where
  "getFactoryVettingByCategory vetting categoryId = find (\<lambda>cat. hints_id cat = categoryId) vetting"


section \<open>Product analysis and initial order cost (web/lib/product-analysis/schema.ts, web/lib/analysis/orderCost.ts)\<close>

record LandedCostBreakdown =
  fob_price :: string
  freight_cost :: string
  duty_rate :: string
  duty_cost :: string
  landed_cost :: string

datatype risk_level = Low | Medium | High

record RiskAssessment =
  overall_score :: jsnum
  compliance_risk :: risk_level
  supplier_risk :: risk_level
  logistics_risk :: risk_level
  summary :: string

record InitialOrderCost =
  testingCostTotal :: jsnum
  unitCost :: jsnum
  moq :: jsnum
  minimumOrderCost :: jsnum
  totalInitialCost :: jsnum

text \<open>An optional field that is absent is \<open>None\<close>; a reasoning item is a pair of regulation and reason.\<close>

record ProductAnalysis =
  product_name :: string
  hts_code :: string
  landed_cost_breakdown :: LandedCostBreakdown
  risk_assessment :: RiskAssessment
  recommendation :: string
  estimate_confidence :: "jsnum option"
  missing_info :: "string list option"
  assumptions :: "string list option"
  compliance_hints :: "CategoryComplianceRule option"
  factory_vetting_hints :: "CategoryFactoryVettingHints option"
  regulation_reasoning :: "(string \<times> string) list option"
  testing_cost_estimate :: "TestingCost list option"
  initial_order_cost :: "InitialOrderCost option"

text \<open>\<open>parseFloat(value.replace(/[^0-9.-]+/g, ''))\<close>.\<close>

definition parseCurrency :: "string \<Rightarrow> jsnum" where
  "parseCurrency value = parseFloat (filter (\<lambda>c. isDigit c \<or> c = CHR ''.'' \<or> c = CHR ''-'') value)"

definition estimateInitialOrderCost :: "ProductAnalysis \<Rightarrow> InitialOrderCost" where
  "estimateInitialOrderCost analysis =
     (let testingCostTotal =
            (case testing_cost_estimate analysis of
               None \<Rightarrow> Finite 0
             | Some items \<Rightarrow> foldl (\<lambda>sum item. js_add sum (high item)) (Finite 0) items);
          unitCost = parseCurrency (landed_cost (landed_cost_breakdown analysis));
          moq = Finite 500;
          minimumOrderCost = js_mul unitCost moq;
          totalInitialCost = js_add minimumOrderCost testingCostTotal
      in \<lparr>testingCostTotal = testingCostTotal, unitCost = unitCost, moq = moq,
          minimumOrderCost = minimumOrderCost, totalInitialCost = totalInitialCost\<rparr>)"


section \<open>Regulation reasoning (web/lib/regulation/reasoning.ts)\<close>

text \<open>The function answers with a fixed list, whatever it is asked.\<close>

definition generateRegulationReasoning ::
  "string \<Rightarrow> string \<Rightarrow> CategoryComplianceRule \<Rightarrow> (string \<times> string) list" where
  "generateRegulationReasoning productName htsCode complianceRule =
     [(''CPSIA'',
       ''The Consumer Product Safety Improvement Act (CPSIA) applies to all children's products, defined as products intended primarily for children 12 years of age or younger. This includes requirements for tracking labels, lead content limits, and phthalate restrictions.''),
      (''ASTM F963'',
       ''ASTM F963 is a mandatory safety standard for toys in the US, referenced by CPSIA. It covers various hazards, including mechanical properties, flammability, and chemical content to ensure toy safety.''),
      (''FDA 21 CFR'',
       ''The FDA regulates materials that come into contact with food. For a baby teether, parts that are intended to be placed in the mouth must be made of food-safe materials as specified under 21 CFR.'')]"


section \<open>The request handler (web/app/api/analyze-product/route.ts)\<close>

text \<open>
  What the handler reads from a request: the e-mail address of the session's user (\<open>None\<close>
  without a signed-in user), three headers, and what \<open>req.json()\<close> and \<open>req.formData()\<close>
  yield when they are called, which is either the message of the error they throw or the
  fields the handler looks at. An uploaded image file is given by its base64 text. Reading
  the session and the headers is taken to succeed, and what the handler prints to the console
  is left out.
\<close>

record json_fields =
  json_input :: "string option"
  json_text :: "string option"
  json_image :: "string option"

record form_fields =
  form_input :: "string option"
  form_image :: "string option"

record request =
  session_user_email :: "string option"
  x_forwarded_for :: "string option"
  user_agent :: "string option"
  content_type :: "string option"
  json_body :: "string + json_fields"
  form_data :: "string + form_fields"

text \<open>
  What the handler depends on besides the request: the environment variable of the limiter,
  the clock, the two loaded knowledge documents, and the model call \<open>analyzeProduct\<close>, which
  either throws an error with a message or returns an analysis.
\<close>

record handler_deps =
  disableUsageLimits :: "string option"
  clockNow :: clock
  complianceRules :: "CategoryComplianceRule list"
  factoryVetting :: "CategoryFactoryVettingHints list"
  analyzeProduct :: "string \<Rightarrow> string option \<Rightarrow> string + ProductAnalysis"

text \<open>
  The state that outlives a request: the limiter's store and the usage log, where each entry
  holds the arguments \<open>buildCategoryUsageEvent\<close> was called with.
\<close>

record server_state =
  usageStore :: usage_store
  categoryUsageLog :: "(string \<times> ProductAnalysis \<times> string option) list"

datatype response =
    Response200 ProductAnalysis
  | Response429 string string string
  | Response400 string
  | Response500 string

text \<open>\<open>v || d\<close> on an optional string: a missing or empty \<open>v\<close> gives \<open>d\<close>.\<close>

definition orElse :: "string option \<Rightarrow> string \<Rightarrow> string" where
  "orElse v d = (case v of None \<Rightarrow> d | Some s \<Rightarrow> if s = [] then d else s)"

definition requestIdentifier :: "request \<Rightarrow> string" where
  "requestIdentifier req =
     (case session_user_email req of
        Some email \<Rightarrow> email
      | None \<Rightarrow>
          (let ip = orElse (x_forwarded_for req) ''unknown'';
               userAgent = orElse (user_agent req) ''unknown''
           in ip @ ''-'' @ userAgent))"

text \<open>Lines 45 to 67: the input and the image, or the message of the error thrown on the way.\<close>

definition readInput :: "request \<Rightarrow> string + (string option \<times> string option)" where
  "readInput req =
     (let contentType = orElse (content_type req) [] in
      if str_includes contentType ''application/json'' then
        (case json_body req of
           Inl err \<Rightarrow> Inl err
         | Inr json \<Rightarrow>
             Inr (Some (orElse (json_input json) (orElse (json_text json) [])),
                  (case json_image json of
                     None \<Rightarrow> None
                   | Some img \<Rightarrow> if img = [] then None else Some img)))
      else
        (case form_data req of
           Inl err \<Rightarrow> Inl err
         | Inr formData \<Rightarrow> Inr (form_input formData, form_image formData)))"

text \<open>The \<open>catch\<close> block.\<close>

definition serverError :: "string \<Rightarrow> response" where
  "serverError errorMessage =
     Response500 (if errorMessage = [] then ''Something went wrong while analyzing the product.''
                  else errorMessage)"

text \<open>Lines 80 to 137: what is done with the analysis that the model call returned.\<close>

definition respondWithAnalysis ::
  "handler_deps \<Rightarrow> string \<Rightarrow> ProductAnalysis \<Rightarrow> server_state \<Rightarrow> response \<times> server_state" where
  "respondWithAnalysis deps input analysis st =
     (let complianceHints =
            resolveComplianceHints (complianceRules deps) (hts_code analysis) (product_name analysis);
          categoryId = map_option rule_id complianceHints;
          factoryVettingHints =
            (case categoryId of
               None \<Rightarrow> None
             | Some cid \<Rightarrow>
                 if cid = [] then None else getFactoryVettingByCategory (factoryVetting deps) cid);
          regulationReasoning =
            map_option (generateRegulationReasoning (product_name analysis) (hts_code analysis))
              complianceHints;
          testingCostEstimate = map_option estimateTestingCost complianceHints;
          analysisWithHints = analysis
            \<lparr>compliance_hints :=
               (case complianceHints of None \<Rightarrow> compliance_hints analysis | Some h \<Rightarrow> Some h),
             factory_vetting_hints :=
               (case factoryVettingHints of None \<Rightarrow> factory_vetting_hints analysis | Some h \<Rightarrow> Some h),
             regulation_reasoning :=
               (case regulationReasoning of None \<Rightarrow> regulation_reasoning analysis | Some r \<Rightarrow> Some r),
             testing_cost_estimate :=
               (case testingCostEstimate of None \<Rightarrow> testing_cost_estimate analysis | Some t \<Rightarrow> Some t)\<rparr>;
          initialOrderCost = estimateInitialOrderCost analysisWithHints;
          analysisWithCost = analysisWithHints\<lparr>initial_order_cost := Some initialOrderCost\<rparr>
      in (Response200 analysisWithCost,
          st\<lparr>categoryUsageLog := categoryUsageLog st @ [(input, analysisWithCost, categoryId)]\<rparr>))"

definition POST :: "handler_deps \<Rightarrow> request \<Rightarrow> server_state \<Rightarrow> response \<times> server_state" where
  "POST deps req st =
     (let isAuthenticated = (session_user_email req \<noteq> None);
          identifier = requestIdentifier req;
          (report, usage') =
            incrementUsage (disableUsageLimits deps) (clockNow deps) identifier isAuthenticated (usageStore st);
          st' = st\<lparr>usageStore := usage'\<rparr>
      in if count_of report > limit_of report then
           (let reason = (if isAuthenticated then ''user_daily_limit'' else ''anonymous_daily_limit'');
                message =
                  (if isAuthenticated
                   then ''You have reached today's free analysis limit for your account.''
                   else ''You have exceeded the number of free analyses for today.'')
            in (Response429 ''quota_exceeded'' reason message, st'))
         else
           (case readInput req of
              Inl err \<Rightarrow> (serverError err, st')
            | Inr (input, imageBase64) \<Rightarrow>
                (case input of
                   None \<Rightarrow> (Response400 ''Input is required.'', st')
                 | Some text \<Rightarrow>
                     if text = [] then (Response400 ''Input is required.'', st')
                     else
                       (case analyzeProduct deps text imageBase64 of
                          Inl err \<Rightarrow> (serverError err, st')
                        | Inr analysis \<Rightarrow> respondWithAnalysis deps text analysis st'))))"

text \<open>An analysis of the kind the model call returns, and requests, for the examples below.\<close>

definition teether_analysis :: ProductAnalysis where
  "teether_analysis =
     \<lparr>product_name = ''Silicone baby teether'', hts_code = ''3924.90.5650'',
      landed_cost_breakdown =
        \<lparr>fob_price = ''$1.80'', freight_cost = ''$0.65'', duty_rate = ''3.4%'',
         duty_cost = ''$0.46'', landed_cost = ''$2.91''\<rparr>,
      risk_assessment =
        \<lparr>overall_score = Finite 62, compliance_risk = High, supplier_risk = Medium,
         logistics_risk = Low, summary = ''Children's product''\<rparr>,
      recommendation = ''Proceed with caution.'',
      estimate_confidence = Some (Finite 70), missing_info = None, assumptions = None,
      compliance_hints = None, factory_vetting_hints = None, regulation_reasoning = None,
      testing_cost_estimate = None, initial_order_cost = None\<rparr>"

definition example_deps :: handler_deps where
  "example_deps =
     \<lparr>disableUsageLimits = None,
      clockNow = \<lparr>fullYear = 2025, month0 = 0, dayOfMonth = 5\<rparr>,
      complianceRules = [tumbler_rule, baby_teether_rule],
      factoryVetting = [],
      analyzeProduct = (\<lambda>input img. Inr teether_analysis)\<rparr>"

definition empty_input_request :: request where
  "empty_input_request =
     \<lparr>session_user_email = None, x_forwarded_for = Some ''10.0.0.1'', user_agent = Some ''curl'',
      content_type = Some ''application/json'',
      json_body = Inr \<lparr>json_input = Some [], json_text = None, json_image = None\<rparr>,
      form_data = Inl ''not a form''\<rparr>"

definition teether_request :: request where
  "teether_request =
     \<lparr>session_user_email = None, x_forwarded_for = Some ''10.0.0.1'', user_agent = Some ''curl'',
      content_type = Some ''application/json'',
      json_body = Inr \<lparr>json_input = Some ''baby teether'', json_text = None, json_image = None\<rparr>,
      form_data = Inl ''not a form''\<rparr>"

definition fresh_state :: server_state where
  "fresh_state = \<lparr>usageStore = Map.empty, categoryUsageLog = []\<rparr>"


section \<open>Knowledge store merge (web/scripts/autoCategory.ts)\<close>

text \<open>
  A knowledge document is kept as what \<open>JSON.parse\<close> reads from its file: the \<open>$comment\<close>
  field if there is one, the other top-level fields by name, and the \<open>categories\<close> array.
  Writing a document and reading it back gives the same content. A file that does not exist
  is \<open>None\<close>. The script works on four files: the two documents and their sample files.
\<close>

record 'a knowledge_document =
  doc_comment :: "string option"
  other_fields :: "(string \<times> string) list"
  categories :: "'a list"

record knowledge_files =
  complianceFile :: "CategoryComplianceRule knowledge_document option"
  factoryFile :: "CategoryFactoryVettingHints knowledge_document option"
  complianceSample :: "CategoryComplianceRule knowledge_document option"
  factorySample :: "CategoryFactoryVettingHints knowledge_document option"

record merge_statuses =
  compliance_status :: string
  factory_status :: string

text \<open>\<open>s.replace(pattern, replacement)\<close> with a string pattern: the first occurrence only.\<close>

fun replaceFirst :: "string \<Rightarrow> string \<Rightarrow> string \<Rightarrow> string" where
  "replaceFirst pattern replacement [] = (if pattern = [] then replacement else [])"
| "replaceFirst pattern replacement (c # cs) =
     (if prefix pattern (c # cs) then replacement @ drop (length pattern) (c # cs)
      else c # replaceFirst pattern replacement cs)"

text \<open>
  \<open>ensureFileExists\<close>, given the content of the file and of its sample: the content of the
  file afterwards, or the error of reading a sample that does not exist.
\<close>

definition ensureFileExists ::
  "'a knowledge_document option \<Rightarrow> 'a knowledge_document option \<Rightarrow> string + 'a knowledge_document" where
  "ensureFileExists file sample =
     (case file of
        Some content \<Rightarrow> Inr content
      | None \<Rightarrow>
          (case sample of
             None \<Rightarrow> Inl ''ENOENT''
           | Some sampleData \<Rightarrow>
               Inr (sampleData
                     \<lparr>categories := [],
                      doc_comment :=
                        Some (orElse (map_option (replaceFirst ''sample'' ''actual'')
                                        (doc_comment sampleData)) [])\<rparr>)))"

text \<open>\<open>xs.findIndex(p)\<close>, with \<open>None\<close> for the index \<open>-1\<close>.\<close>

fun findIndex :: "('a \<Rightarrow> bool) \<Rightarrow> 'a list \<Rightarrow> nat option" where
  "findIndex p [] = None"
| "findIndex p (x # xs) = (if p x then Some 0 else map_option Suc (findIndex p xs))"

text \<open>
  The update-or-add step, which the script writes out once for each document: the status
  and the new array, given the function that reads the identifier of a record.
\<close>

definition mergeCategory :: "('a \<Rightarrow> string) \<Rightarrow> 'a \<Rightarrow> 'a list \<Rightarrow> string \<times> 'a list" where
  "mergeCategory idOf json cats =
     (case findIndex (\<lambda>c. idOf c = idOf json) cats of
        Some index \<Rightarrow> (''updated'', cats[index := json])
      | None \<Rightarrow> (''created'', cats @ [json]))"

definition mergeIntoFiles ::
  "CategoryComplianceRule \<Rightarrow> CategoryFactoryVettingHints \<Rightarrow> knowledge_files
     \<Rightarrow> (string + merge_statuses) \<times> knowledge_files" where
  "mergeIntoFiles complianceJson factoryJson fs =
     (case ensureFileExists (complianceFile fs) (complianceSample fs) of
        Inl err \<Rightarrow> (Inl err, fs)
      | Inr complianceData \<Rightarrow>
          (let fs1 = fs\<lparr>complianceFile := Some complianceData\<rparr> in
           case ensureFileExists (factoryFile fs1) (factorySample fs1) of
             Inl err \<Rightarrow> (Inl err, fs1)
           | Inr factoryData \<Rightarrow>
               (let (complianceStatus, complianceCategories) =
                      mergeCategory rule_id complianceJson (categories complianceData);
                    (factoryStatus, factoryCategories) =
                      mergeCategory hints_id factoryJson (categories factoryData)
                in (Inr \<lparr>compliance_status = complianceStatus, factory_status = factoryStatus\<rparr>,
                    fs1\<lparr>complianceFile := Some (complianceData\<lparr>categories := complianceCategories\<rparr>),
                        factoryFile := Some (factoryData\<lparr>categories := factoryCategories\<rparr>)\<rparr>))))"

text \<open>The categories a file holds, none when the file does not exist.\<close>

definition storedCategories :: "'a knowledge_document option \<Rightarrow> 'a list" where
  "storedCategories file = (case file of None \<Rightarrow> [] | Some content \<Rightarrow> categories content)"

text \<open>Vetting hints and files for the examples below.\<close>

definition baby_teether_hints :: CategoryFactoryVettingHints where
  "baby_teether_hints =
     \<lparr>hints_id = ''baby_teether'', hints_label = ''Baby Teether'',
      typicalSupplierTypes = [''OEM''], mustHaveCertificates = [''CPC''],
      niceToHaveCertificates = [''ISO 9001''], sampleQuestionsToFactory = [],
      commonRedFlags = [], recommendedAlibabaFilters = [''Trade Assurance'']\<rparr>"

definition example_files :: knowledge_files where
  "example_files =
     \<lparr>complianceFile =
        Some \<lparr>doc_comment = Some ''actual rules'', other_fields = [],
              categories = [tumbler_rule, baby_teether_rule\<lparr>label := ''Teether''\<rparr>]\<rparr>,
      factoryFile = None,
      complianceSample = None,
      factorySample =
        Some \<lparr>doc_comment = Some ''This is a sample file'', other_fields = [],
              categories = [baby_teether_hints\<lparr>hints_id := ''sample_category''\<rparr>]\<rparr>\<rparr>"


section \<open>Properties of the usage limiter\<close>

lemma incrementUsage_step:
  assumes "disableFlag \<noteq> Some ''true''"
  shows "incrementUsage disableFlag now i a usage =
    (\<lparr>count_of = count_today now usage i + 1, limit_of = getLimit a\<rparr>,
     usage(i \<mapsto> \<lparr>count = count_today now usage i + 1, date = getCurrentDateAsNumber now\<rparr>))"
proof (cases "usage i")
  case None
  with assms show ?thesis
    by (simp add: incrementUsage_def count_today_def Let_def)
next
  case (Some entry)
  then show ?thesis
    using assms by (cases entry) (simp add: incrementUsage_def count_today_def Let_def)
qed

lemma count_today_upd:
  "count_today now (usage(i \<mapsto> \<lparr>count = n, date = getCurrentDateAsNumber now\<rparr>)) j =
     (if j = i then n else count_today now usage j)"
  by (simp add: count_today_def)

lemma count_today_incrementUsage:
  assumes "disableFlag \<noteq> Some ''true''"
  shows "count_today now (snd (incrementUsage disableFlag now i a usage)) j =
     (if j = i then count_today now usage i + 1 else count_today now usage j)"
  unfolding incrementUsage_step[OF assms] snd_conv by (rule count_today_upd)

lemma incrementUsage_calls_nth:
  assumes "disableFlag \<noteq> Some ''true''" "k < length cs"
  shows "fst (incrementUsage_calls disableFlag now cs usage) ! k =
     \<lparr>count_of = count_today now usage (fst (cs ! k)) +
                 length (filter (\<lambda>c. fst c = fst (cs ! k)) (take (Suc k) cs)),
      limit_of = getLimit (snd (cs ! k))\<rparr>"
  using assms(2)
proof (induction cs arbitrary: usage k)
  case Nil
  then show ?case by simp
next
  case (Cons c cs)
  show ?case
  proof (cases k)
    case 0
    then show ?thesis
      by (simp add: incrementUsage_step[OF assms(1)] split_beta)
  next
    case (Suc j)
    with Cons.prems have j: "j < length cs" by simp
    have "fst (incrementUsage_calls disableFlag now (c # cs) usage) ! k =
          fst (incrementUsage_calls disableFlag now cs
                 (snd (incrementUsage disableFlag now (fst c) (snd c) usage))) ! j"
      using Suc by (simp add: split_beta)
    also have "\<dots> = \<lparr>count_of =
         count_today now (snd (incrementUsage disableFlag now (fst c) (snd c) usage)) (fst (cs ! j)) +
         length (filter (\<lambda>c. fst c = fst (cs ! j)) (take (Suc j) cs)),
      limit_of = getLimit (snd (cs ! j))\<rparr>"
      by (rule Cons.IH[OF j])
    finally show ?thesis
      using Suc by (simp add: count_today_incrementUsage[OF assms(1)])
  qed
qed

lemma incrementUsage_disabled:
  "incrementUsage (Some ''true'') now i a usage = (\<lparr>count_of = 0, limit_of = getLimit a\<rparr>, usage)"
  by (simp add: incrementUsage_def)

text \<open>
  Claim C1. With the bypass flag not enabled, take any sequence of \<open>incrementUsage\<close> calls made
  on one calendar day, starting from a store that holds no entry of that day for the
  identifier of the \<open>k\<close>-th call. That call reports as count the number of calls made so far
  for its identifier (itself included), so the Nth call of the day reports N, however large N
  is, and as limit 1 for an anonymous and 5 for an authenticated caller. For a single call on
  any store, the count restarts at 1 exactly when there is no entry or the stored day number
  differs from the current one; otherwise it is the stored count plus one.
\<close>

theorem incrementUsage_nth_call_of_day:
  assumes "disableFlag \<noteq> Some ''true''"
    and "k < length cs"
    and "count_today now usage (fst (cs ! k)) = 0"
  shows "fst (incrementUsage_calls disableFlag now cs usage) ! k =
           \<lparr>count_of = length (filter (\<lambda>c. fst c = fst (cs ! k)) (take (Suc k) cs)),
            limit_of = (if snd (cs ! k) then 5 else 1)\<rparr>
         \<and> count_of (fst (incrementUsage disableFlag now' identifier isAuthenticated usage')) =
           (case usage' identifier of
              None \<Rightarrow> 1
            | Some entry \<Rightarrow>
                if date entry = getCurrentDateAsNumber now' then count entry + 1 else 1)"
proof
  show "fst (incrementUsage_calls disableFlag now cs usage) ! k =
           \<lparr>count_of = length (filter (\<lambda>c. fst c = fst (cs ! k)) (take (Suc k) cs)),
            limit_of = (if snd (cs ! k) then 5 else 1)\<rparr>"
    unfolding incrementUsage_calls_nth[OF assms(1,2)] assms(3)
    by (simp add: getLimit_def AUTHENTICATED_LIMIT_def ANONYMOUS_LIMIT_def)
  show "count_of (fst (incrementUsage disableFlag now' identifier isAuthenticated usage')) =
           (case usage' identifier of
              None \<Rightarrow> 1
            | Some entry \<Rightarrow>
                if date entry = getCurrentDateAsNumber now' then count entry + 1 else 1)"
    unfolding incrementUsage_step[OF assms(1)]
    by (simp add: count_today_def split: option.splits)
qed

theorem incrementUsage_nth_call_of_day_witness:
  "fst (incrementUsage_calls None \<lparr>fullYear = 2025, month0 = 0, dayOfMonth = 5\<rparr>
          [(''10.0.0.1-curl'', False), (''ann@example.com'', True), (''10.0.0.1-curl'', False)]
          Map.empty) ! 2 = \<lparr>count_of = 2, limit_of = 1\<rparr>
   \<and> count_of (fst (incrementUsage None \<lparr>fullYear = 2025, month0 = 0, dayOfMonth = 6\<rparr>
         ''10.0.0.1-curl'' False [''10.0.0.1-curl'' \<mapsto> \<lparr>count = 7, date = 20250105\<rparr>])) = 1"
  using incrementUsage_nth_call_of_day [of None 2
      "[(''10.0.0.1-curl'', False), (''ann@example.com'', True), (''10.0.0.1-curl'', False)]"
      "\<lparr>fullYear = 2025, month0 = 0, dayOfMonth = 5\<rparr>" Map.empty
      "\<lparr>fullYear = 2025, month0 = 0, dayOfMonth = 6\<rparr>" "''10.0.0.1-curl''" False
      "[''10.0.0.1-curl'' \<mapsto> \<lparr>count = 7, date = 20250105\<rparr>]"]
  by (simp add: count_today_def getCurrentDateAsNumber_def)

text \<open>
  Claim C5. With \<open>NEXSUPPLY_DISABLE_USAGE_LIMITS\<close> set to \<open>true\<close>, a call reports count 0 and
  returns the store it was given, and so does every call of any sequence of calls: no entry is
  created and none is changed, whatever the store held before.
\<close>

theorem incrementUsage_bypass_frame:
  "incrementUsage (Some ''true'') now identifier isAuthenticated usage =
     (\<lparr>count_of = 0, limit_of = getLimit isAuthenticated\<rparr>, usage)
   \<and> incrementUsage_calls (Some ''true'') now cs usage =
     (map (\<lambda>c. \<lparr>count_of = 0, limit_of = getLimit (snd c)\<rparr>) cs, usage)"
proof
  show "incrementUsage (Some ''true'') now identifier isAuthenticated usage =
     (\<lparr>count_of = 0, limit_of = getLimit isAuthenticated\<rparr>, usage)"
    by (rule incrementUsage_disabled)
  show "incrementUsage_calls (Some ''true'') now cs usage =
     (map (\<lambda>c. \<lparr>count_of = 0, limit_of = getLimit (snd c)\<rparr>) cs, usage)"
    by (induction cs) (simp_all add: incrementUsage_disabled)
qed

theorem incrementUsage_bypass_frame_witness:
  "incrementUsage (Some ''true'') \<lparr>fullYear = 2025, month0 = 0, dayOfMonth = 5\<rparr> ''10.0.0.1-curl'' False
     [''10.0.0.1-curl'' \<mapsto> \<lparr>count = 7, date = 20250105\<rparr>] =
     (\<lparr>count_of = 0, limit_of = 1\<rparr>, [''10.0.0.1-curl'' \<mapsto> \<lparr>count = 7, date = 20250105\<rparr>])"
  using incrementUsage_bypass_frame [of "\<lparr>fullYear = 2025, month0 = 0, dayOfMonth = 5\<rparr>"
      "''10.0.0.1-curl''" False "[''10.0.0.1-curl'' \<mapsto> \<lparr>count = 7, date = 20250105\<rparr>]" "[]"]
  by (simp add: getLimit_def ANONYMOUS_LIMIT_def)

text \<open>
  Claim C9, as the source has it. The module exports two operations that report an
  identifier's count. \<open>getUsage\<close> reports the count stored for the current day (0 without a
  current entry) and leaves the store as it is: it is a read-only peek. \<open>incrementUsage\<close>,
  with the bypass flag not enabled, reports that count plus one and always changes the store.
\<close>

theorem limiter_peek_and_increment:
  "limiter_call GetUsage disableFlag now identifier isAuthenticated usage =
     (\<lparr>count_of = count_today now usage identifier, limit_of = getLimit isAuthenticated\<rparr>, usage)
   \<and> (disableFlag \<noteq> Some ''true'' \<longrightarrow>
        count_of (fst (limiter_call IncrementUsage disableFlag now identifier isAuthenticated usage)) =
          count_today now usage identifier + 1
        \<and> snd (limiter_call IncrementUsage disableFlag now identifier isAuthenticated usage) \<noteq> usage)"
proof (intro conjI impI)
  show "limiter_call GetUsage disableFlag now identifier isAuthenticated usage =
     (\<lparr>count_of = count_today now usage identifier, limit_of = getLimit isAuthenticated\<rparr>, usage)"
    by (simp add: getUsage_def count_today_def Let_def split: option.splits)
next
  assume on: "disableFlag \<noteq> Some ''true''"
  show "count_of (fst (limiter_call IncrementUsage disableFlag now identifier isAuthenticated usage)) =
          count_today now usage identifier + 1"
    by (simp add: incrementUsage_step[OF on])
  have "count_today now (snd (incrementUsage disableFlag now identifier isAuthenticated usage)) identifier
        \<noteq> count_today now usage identifier"
    by (simp add: count_today_incrementUsage[OF on])
  then show "snd (limiter_call IncrementUsage disableFlag now identifier isAuthenticated usage) \<noteq> usage"
    by auto
qed

theorem limiter_peek_and_increment_witness:
  "limiter_call GetUsage None \<lparr>fullYear = 2025, month0 = 0, dayOfMonth = 5\<rparr> ''10.0.0.1-curl'' False Map.empty =
     (\<lparr>count_of = 0, limit_of = 1\<rparr>, Map.empty)
   \<and> count_of (fst (limiter_call IncrementUsage None \<lparr>fullYear = 2025, month0 = 0, dayOfMonth = 5\<rparr>
        ''10.0.0.1-curl'' False Map.empty)) = 1
   \<and> snd (limiter_call IncrementUsage None \<lparr>fullYear = 2025, month0 = 0, dayOfMonth = 5\<rparr>
        ''10.0.0.1-curl'' False Map.empty) \<noteq> Map.empty"
  using limiter_peek_and_increment [of None "\<lparr>fullYear = 2025, month0 = 0, dayOfMonth = 5\<rparr>"
      "''10.0.0.1-curl''" False Map.empty]
  by (simp add: count_today_def getLimit_def ANONYMOUS_LIMIT_def)

text \<open>
  The claim as the specification words it (no operation reports a count without changing the
  store) fails: on a store holding count 3 for the current day, \<open>getUsage\<close> reports 3 and the
  store is the same afterwards.
\<close>

theorem limiter_no_peek_counterexample:
  "limiter_call GetUsage None \<lparr>fullYear = 2025, month0 = 0, dayOfMonth = 5\<rparr> ''10.0.0.1-curl'' False
     [''10.0.0.1-curl'' \<mapsto> \<lparr>count = 3, date = 20250105\<rparr>] =
   (\<lparr>count_of = 3, limit_of = 1\<rparr>, [''10.0.0.1-curl'' \<mapsto> \<lparr>count = 3, date = 20250105\<rparr>])"
  by (simp add: getUsage_def getCurrentDateAsNumber_def getLimit_def ANONYMOUS_LIMIT_def)


section \<open>Properties of the category resolver\<close>

lemma htsCodeScan_find:
  "htsCodeScan nq market rules =
     find (\<lambda>category. list_ex (htsCodeMatches nq) (typicalHtsCodes category) \<and>
                      marketAccepts market category) rules"
  by (induction rules) (auto simp: marketAccepts_def Let_def split: option.splits)

lemma productNameScan_find:
  "productNameScan searchTerms market rules =
     find (\<lambda>category.
             list_ex (\<lambda>term. str_includes (categoryAllText category) term \<and> length term > 2)
               searchTerms \<and>
             marketAccepts market category) rules"
  by (induction rules) (auto simp: marketAccepts_def Let_def split: option.splits)

lemma htsCodeMatches_iff:
  "htsCodeMatches nq code \<longleftrightarrow>
     prefix (normalizeHtsCode code) nq \<or> prefix nq (normalizeHtsCode code)"
  by (simp add: htsCodeMatches_def startsWith_def Let_def)

lemma find_cong_set:
  "(\<And>x. x \<in> set xs \<Longrightarrow> P x = Q x) \<Longrightarrow> find P xs = find Q xs"
  by (induction xs) auto

lemma find_None_no_match:
  "(\<And>x. x \<in> set xs \<Longrightarrow> \<not> P x) \<Longrightarrow> find P xs = None"
  by (induction xs) auto

lemma splitWhitespace_no_space:
  "\<forall>term \<in> set (splitWhitespace s). \<forall>c \<in> set term. \<not> isWhitespace c"
proof (induction s rule: splitWhitespace.induct)
  case 1
  then show ?case by simp
next
  case (2 d ds)
  show ?case
  proof (cases "isWhitespace d")
    case True
    with 2 show ?thesis by simp
  next
    case False
    with 2(2) show ?thesis by (cases "splitWhitespace ds") auto
  qed
qed

lemma getComplianceByHtsCode_find:
  "getComplianceByHtsCode rules htsCode market =
     find (\<lambda>category.
             (\<exists>code \<in> set (typicalHtsCodes category).
                prefix (normalizeHtsCode code) (normalizeHtsCode htsCode) \<or>
                prefix (normalizeHtsCode htsCode) (normalizeHtsCode code)) \<and>
             marketAccepts market category) rules"
  unfolding getComplianceByHtsCode_def Let_def htsCodeScan_find
  by (rule find_cong_set) (simp add: list_ex_iff htsCodeMatches_iff)

text \<open>
  Claim C3. The claim says that a query and a stored code sharing no common prefix never
  match. The code breaks it where the query has no digit and no dot. The query \<open>unknown\<close>
  and the stored code \<open>9503.00.00\<close> share no common prefix, as written and as stripped, and
  yet the rule that lists \<open>9503.00.00\<close> is returned: the query strips to the empty string,
  which every stored code starts with, and the function has no guard for it. In the request
  handler this defeats the lookup by product name: with the HTS code \<open>N/A\<close> the handler
  resolves a teether to the tumbler rule, the first rule with any code, although the lookup
  by name alone finds the teether rule.
\<close>

theorem getComplianceByHtsCode_empty_code_matches_all:
  "longest_common_prefix ''unknown'' ''9503.00.00'' = []
   \<and> longest_common_prefix (normalizeHtsCode ''unknown'') (normalizeHtsCode ''9503.00.00'') = []
   \<and> getComplianceByHtsCode [baby_teether_rule\<lparr>typicalHtsCodes := [''9503.00.00'']\<rparr>] ''unknown'' None =
       Some (baby_teether_rule\<lparr>typicalHtsCodes := [''9503.00.00'']\<rparr>)
   \<and> getComplianceByHtsCode [tumbler_rule, baby_teether_rule] ''N/A'' None = Some tumbler_rule
   \<and> getComplianceByProductName [tumbler_rule, baby_teether_rule] ''Silicone baby teether'' None =
       Some baby_teether_rule
   \<and> resolveComplianceHints [tumbler_rule, baby_teether_rule] ''N/A'' ''Silicone baby teether'' =
       Some tumbler_rule"
  by code_simp

text \<open>
  Claim C10. A query without any digit or dot is stripped to the empty string, which is a
  prefix of every stored code: the function returns the first rule, in the order of the
  collection, that has at least one entry in \<open>typicalHtsCodes\<close> and passes the market filter.
\<close>

theorem getComplianceByHtsCode_without_digits:
  assumes "\<forall>c \<in> set htsCode. \<not> isDigit c \<and> c \<noteq> CHR ''.''"
  shows "getComplianceByHtsCode rules htsCode market =
           find (\<lambda>category. typicalHtsCodes category \<noteq> [] \<and> marketAccepts market category) rules"
proof -
  from assms have "normalizeHtsCode htsCode = []"
    by (auto simp: normalizeHtsCode_def filter_empty_conv)
  then show ?thesis
    unfolding getComplianceByHtsCode_find
    by (intro find_cong_set) (auto simp: Bex_def ex_in_conv)
qed

theorem getComplianceByHtsCode_without_digits_witness:
  "getComplianceByHtsCode
     [baby_teether_rule\<lparr>typicalHtsCodes := []\<rparr>, tumbler_rule, baby_teether_rule] ''unknown'' None =
   Some tumbler_rule
   \<and> getComplianceByHtsCode
     [baby_teether_rule\<lparr>typicalHtsCodes := []\<rparr>, tumbler_rule, baby_teether_rule] ''unknown'' (Some ''us'') =
   Some baby_teether_rule"
proof -
  have h: "\<forall>c \<in> set ''unknown''. \<not> isDigit c \<and> c \<noteq> CHR ''.''"
    by code_simp
  have e: "find (\<lambda>category. typicalHtsCodes category \<noteq> [] \<and> marketAccepts None category)
             [baby_teether_rule\<lparr>typicalHtsCodes := []\<rparr>, tumbler_rule, baby_teether_rule] =
           Some tumbler_rule"
    "find (\<lambda>category. typicalHtsCodes category \<noteq> [] \<and> marketAccepts (Some ''us'') category)
             [baby_teether_rule\<lparr>typicalHtsCodes := []\<rparr>, tumbler_rule, baby_teether_rule] =
           Some baby_teether_rule"
    by code_simp+
  show ?thesis
    using getComplianceByHtsCode_without_digits [OF h] e by simp
qed

text \<open>
  Claim C4. The query is put in lower case and split at white space; no piece contains white
  space. A rule matches when some piece longer than two characters occurs in the rule's text,
  which is its label in lower case, a space, and its example products joined by spaces in
  lower case. The function returns the first matching rule, in the order of the collection,
  that passes the market filter, so a query whose pieces all have at most two characters
  matches nothing. The request handler asks for it only when the lookup by HTS code returned
  nothing.
\<close>

theorem getComplianceByProductName_token_match:
  "getComplianceByProductName rules productName market =
     find (\<lambda>category.
             (\<exists>term \<in> set (splitWhitespace (toLowerCase productName)).
                length term > 2 \<and>
                sublist term (toLowerCase (label category) @ '' '' @
                              toLowerCase (joinWith '' '' (exampleProducts category)))) \<and>
             marketAccepts market category) rules
   \<and> (\<forall>term \<in> set (splitWhitespace (toLowerCase productName)). \<forall>c \<in> set term. \<not> isWhitespace c)
   \<and> ((\<forall>term \<in> set (splitWhitespace (toLowerCase productName)). length term \<le> 2)
        \<longrightarrow> getComplianceByProductName rules productName market = None)
   \<and> resolveComplianceHints rules htsCode productName =
       (case getComplianceByHtsCode rules htsCode None of
          Some category \<Rightarrow> Some category
        | None \<Rightarrow> getComplianceByProductName rules productName None)"
proof (intro conjI impI)
  show f: "getComplianceByProductName rules productName market =
     find (\<lambda>category.
             (\<exists>term \<in> set (splitWhitespace (toLowerCase productName)).
                length term > 2 \<and>
                sublist term (toLowerCase (label category) @ '' '' @
                              toLowerCase (joinWith '' '' (exampleProducts category)))) \<and>
             marketAccepts market category) rules"
    unfolding getComplianceByProductName_def Let_def productNameScan_find
    by (rule find_cong_set)
       (auto simp: list_ex_iff str_includes_def categoryAllText_def Let_def)
  show "\<forall>term \<in> set (splitWhitespace (toLowerCase productName)). \<forall>c \<in> set term. \<not> isWhitespace c"
    by (rule splitWhitespace_no_space)
  show "resolveComplianceHints rules htsCode productName =
       (case getComplianceByHtsCode rules htsCode None of
          Some category \<Rightarrow> Some category
        | None \<Rightarrow> getComplianceByProductName rules productName None)"
    by (simp add: resolveComplianceHints_def)
  assume "\<forall>term \<in> set (splitWhitespace (toLowerCase productName)). length term \<le> 2"
  then show "getComplianceByProductName rules productName market = None"
    unfolding f by (intro find_None_no_match) fastforce
qed

theorem getComplianceByProductName_token_match_witness:
  "getComplianceByProductName [tumbler_rule, baby_teether_rule] ''BPA-free TEETHING toy'' None =
     Some baby_teether_rule
   \<and> getComplianceByProductName [tumbler_rule, baby_teether_rule] ''an el te'' None = None
   \<and> resolveComplianceHints [tumbler_rule, baby_teether_rule] ''7323'' ''teething toy'' =
     Some tumbler_rule"
proof -
  have e1: "getComplianceByProductName [tumbler_rule, baby_teether_rule] ''BPA-free TEETHING toy'' None =
     Some baby_teether_rule"
    by code_simp
  have h: "\<forall>term \<in> set (splitWhitespace (toLowerCase ''an el te'')). length term \<le> 2"
    by code_simp
  have e2: "getComplianceByProductName [tumbler_rule, baby_teether_rule] ''an el te'' None = None"
    using getComplianceByProductName_token_match
            [of "[tumbler_rule, baby_teether_rule]" "''an el te''" None "''7323''"] h
    by blast
  have e3: "resolveComplianceHints [tumbler_rule, baby_teether_rule] ''7323'' ''teething toy'' =
     Some tumbler_rule"
    by code_simp
  show ?thesis
    by (intro conjI e1 e2 e3)
qed


section \<open>Properties of the testing-cost estimate\<close>

lemma Set_add_fold_set:
  "set (foldl (\<lambda>requiredTests test. Set_add test requiredTests) acc tests) = set acc \<union> set tests"
  by (induction tests arbitrary: acc) (auto simp: Set_add_def)

lemma Set_add_fold_distinct:
  "distinct acc \<Longrightarrow> distinct (foldl (\<lambda>requiredTests test. Set_add test requiredTests) acc tests)"
  by (induction tests arbitrary: acc) (auto simp: Set_add_def)

lemma addTestsForKey_set:
  "set (foldl (addTestsForKey l) acc keys) =
     set acc \<union> {t. \<exists>key \<in> set keys. sublist key l \<and>
                     (\<exists>tests. map_of regulationToTestMap key = Some tests \<and> t \<in> set tests)}"
  by (induction keys arbitrary: acc)
     (auto simp: addTestsForKey_def Set_add_fold_set str_includes_def split: option.splits)

lemma addTestsForKey_distinct:
  "distinct acc \<Longrightarrow> distinct (foldl (addTestsForKey l) acc keys)"
  by (induction keys arbitrary: acc)
     (auto simp: addTestsForKey_def Set_add_fold_distinct split: option.splits)

lemma regulations_fold_set:
  "set (foldl (\<lambda>requiredTests reg. foldl (addTestsForKey (toLowerCase reg)) requiredTests keys) acc regs) =
     set acc \<union> {t. \<exists>reg \<in> set regs. \<exists>key \<in> set keys. sublist key (toLowerCase reg) \<and>
                     (\<exists>tests. map_of regulationToTestMap key = Some tests \<and> t \<in> set tests)}"
  by (induction regs arbitrary: acc) (auto simp: addTestsForKey_set)

lemma regulations_fold_distinct:
  "distinct acc \<Longrightarrow>
   distinct (foldl (\<lambda>requiredTests reg. foldl (addTestsForKey (toLowerCase reg)) requiredTests keys) acc regs)"
  by (induction regs arbitrary: acc) (auto simp: addTestsForKey_distinct)

lemma regulationToTestMap_keys_distinct: "distinct (map fst regulationToTestMap)"
  by code_simp

lemma requiredTestsOf_set:
  "set (requiredTestsOf regs) =
     {t. \<exists>reg \<in> set regs. \<exists>(key, tests) \<in> set regulationToTestMap.
            sublist key (toLowerCase reg) \<and> t \<in> set tests}"
proof -
  have m: "map_of regulationToTestMap key = Some tests \<longleftrightarrow> (key, tests) \<in> set regulationToTestMap"
    for key tests
    by (rule map_of_eq_Some_iff[OF regulationToTestMap_keys_distinct])
  have k: "(key, tests) \<in> set regulationToTestMap \<Longrightarrow> key \<in> set (map fst regulationToTestMap)"
    for key tests
    by force
  show ?thesis
    unfolding requiredTestsOf_def Let_def regulations_fold_set m
    using k by fastforce
qed

lemma requiredTestsOf_distinct: "distinct (requiredTestsOf regs)"
  unfolding requiredTestsOf_def Let_def by (rule regulations_fold_distinct) simp

lemma requiredTestsOf_known:
  "set (requiredTestsOf regs) \<subseteq> set (concat (map snd regulationToTestMap))"
proof
  fix t
  assume "t \<in> set (requiredTestsOf regs)"
  then obtain key tests where "(key, tests) \<in> set regulationToTestMap" "t \<in> set tests"
    unfolding requiredTestsOf_set by blast
  then have "tests \<in> set (map snd regulationToTestMap)" "t \<in> set tests"
    by force+
  then show "t \<in> set (concat (map snd regulationToTestMap))"
    unfolding set_concat by blast
qed

lemma costEstimate_fold:
  "foldl (\<lambda>costEstimate testName.
            case map_of testingCostTable testName of
              Some cost \<Rightarrow> costEstimate @ [cost]
            | None \<Rightarrow> costEstimate) acc names =
   acc @ List.map_filter (map_of testingCostTable) names"
  by (induction names arbitrary: acc) (auto simp: List.map_filter_simps split: option.splits)

lemma estimateTestingCost_alt:
  "estimateTestingCost r =
     List.map_filter (map_of testingCostTable) (requiredTestsOf (requiredRegulations r))"
  by (simp add: estimateTestingCost_def costEstimate_fold)

lemma set_map_filter: "set (List.map_filter f xs) = {y. \<exists>x \<in> set xs. f x = Some y}"
  by (induction xs) (auto simp: List.map_filter_simps split: option.splits)

lemma map_filter_total:
  "\<forall>x \<in> set xs. f x \<noteq> None \<Longrightarrow> List.map_filter f xs = map (\<lambda>x. the (f x)) xs"
  by (induction xs) (auto simp: List.map_filter_simps split: option.splits)

lemma all_tests_priced:
  "list_all (\<lambda>name. map_of testingCostTable name \<noteq> None) (concat (map snd regulationToTestMap))"
  by code_simp

lemma all_tests_labels_distinct:
  "distinct (map (\<lambda>name. test (the (map_of testingCostTable name)))
               (concat (map snd regulationToTestMap)))"
  by code_simp

lemma estimateTestingCost_names_distinct:
  "distinct (map test (estimateTestingCost r))"
proof -
  let ?names = "requiredTestsOf (requiredRegulations r)"
  let ?g = "\<lambda>name. test (the (map_of testingCostTable name))"
  have priced: "\<forall>name \<in> set ?names. map_of testingCostTable name \<noteq> None"
    using all_tests_priced requiredTestsOf_known[of "requiredRegulations r"]
    by (auto simp: list_all_iff)
  have "inj_on ?g (set (concat (map snd regulationToTestMap)))"
    using all_tests_labels_distinct by (simp only: distinct_map)
  then have "inj_on ?g (set ?names)"
    by (rule inj_on_subset) (rule requiredTestsOf_known)
  then have "distinct (map ?g ?names)"
    by (simp add: distinct_map requiredTestsOf_distinct)
  then show ?thesis
    by (simp add: estimateTestingCost_alt map_filter_total[OF priced] comp_def)
qed

lemma estimateTestingCost_set:
  "set (estimateTestingCost r) =
     {cost. \<exists>reg \<in> set (requiredRegulations r). \<exists>(key, tests) \<in> set regulationToTestMap.
              sublist key (toLowerCase reg) \<and>
              (\<exists>name \<in> set tests. map_of testingCostTable name = Some cost)}"
  unfolding estimateTestingCost_alt set_map_filter requiredTestsOf_set by fastforce

text \<open>
  Claim C6. The estimate is a function of the rule's \<open>requiredRegulations\<close> alone and of no
  state: two rules with the same regulations get the same list. A line item is in the list
  exactly when one of its test names belongs to a key that occurs, as a substring, in the
  lower-cased text of some regulation; no test appears twice; and when no regulation contains
  a key the list is empty.
\<close>

theorem estimateTestingCost_pure_dedup:
  "(requiredRegulations r = requiredRegulations r' \<longrightarrow>
      estimateTestingCost r = estimateTestingCost r')
   \<and> set (estimateTestingCost r) =
       {cost. \<exists>reg \<in> set (requiredRegulations r). \<exists>(key, tests) \<in> set regulationToTestMap.
                sublist key (toLowerCase reg) \<and>
                (\<exists>name \<in> set tests. map_of testingCostTable name = Some cost)}
   \<and> distinct (map test (estimateTestingCost r))
   \<and> ((\<forall>reg \<in> set (requiredRegulations r). \<forall>key \<in> set (map fst regulationToTestMap).
          \<not> sublist key (toLowerCase reg))
        \<longrightarrow> estimateTestingCost r = [])"
proof (intro conjI impI)
  assume "requiredRegulations r = requiredRegulations r'"
  then show "estimateTestingCost r = estimateTestingCost r'"
    by (simp add: estimateTestingCost_def)
next
  show "set (estimateTestingCost r) =
       {cost. \<exists>reg \<in> set (requiredRegulations r). \<exists>(key, tests) \<in> set regulationToTestMap.
                sublist key (toLowerCase reg) \<and>
                (\<exists>name \<in> set tests. map_of testingCostTable name = Some cost)}"
    by (rule estimateTestingCost_set)
next
  show "distinct (map test (estimateTestingCost r))"
    by (rule estimateTestingCost_names_distinct)
next
  assume none: "\<forall>reg \<in> set (requiredRegulations r). \<forall>key \<in> set (map fst regulationToTestMap).
          \<not> sublist key (toLowerCase reg)"
  have "set (estimateTestingCost r) = {}"
    unfolding estimateTestingCost_set using none by fastforce
  then show "estimateTestingCost r = []"
    by simp
qed

theorem estimateTestingCost_pure_dedup_witness:
  "estimateTestingCost (tumbler_rule\<lparr>requiredRegulations := [''Prop 65'', ''LFGB'']\<rparr>) = []
   \<and> estimateTestingCost
       (tumbler_rule\<lparr>requiredRegulations := [''Prop 65'', ''LFGB''], label := ''Mug''\<rparr>) = []
   \<and> map test (estimateTestingCost
        (baby_teether_rule\<lparr>requiredRegulations := [''CPSIA'', ''FDA-21-CFR 177'', ''cpsia lead'']\<rparr>)) =
       [''CPSIA Lead Content'', ''CPSIA Phthalates'', ''CPSIA Tracking Label Review'',
        ''FDA 21 CFR Food-Grade Material Testing'']"
proof -
  let ?r = "tumbler_rule\<lparr>requiredRegulations := [''Prop 65'', ''LFGB'']\<rparr>"
  let ?r' = "tumbler_rule\<lparr>requiredRegulations := [''Prop 65'', ''LFGB''], label := ''Mug''\<rparr>"
  have same: "requiredRegulations ?r = requiredRegulations ?r'"
    by simp
  have none: "\<forall>reg \<in> set (requiredRegulations ?r). \<forall>key \<in> set (map fst regulationToTestMap).
          \<not> sublist key (toLowerCase reg)"
    by code_simp
  have e1: "estimateTestingCost ?r = []"
    using estimateTestingCost_pure_dedup [of ?r ?r'] none by blast
  have e2: "estimateTestingCost ?r' = []"
    using estimateTestingCost_pure_dedup [of ?r ?r'] same e1 by metis
  have e3: "map test (estimateTestingCost
        (baby_teether_rule\<lparr>requiredRegulations := [''CPSIA'', ''FDA-21-CFR 177'', ''cpsia lead'']\<rparr>)) =
       [''CPSIA Lead Content'', ''CPSIA Phthalates'', ''CPSIA Tracking Label Review'',
        ''FDA 21 CFR Food-Grade Material Testing'']"
    by code_simp
  show ?thesis
    by (intro conjI e1 e2 e3)
qed


section \<open>Properties of the request handler\<close>

lemma POST_400_state:
  assumes "fst (POST deps req st) = Response400 msg"
  shows "snd (POST deps req st) =
           st\<lparr>usageStore := snd (incrementUsage (disableUsageLimits deps) (clockNow deps)
                    (requestIdentifier req) (session_user_email req \<noteq> None) (usageStore st))\<rparr>"
  using assms
  by (auto simp: POST_def Let_def split_beta serverError_def respondWithAnalysis_def
           split: if_splits sum.splits option.splits)

lemma POST_400_message:
  assumes "fst (POST deps req st) = Response400 msg"
  shows "msg = ''Input is required.''"
  using assms
  by (auto simp: POST_def Let_def split_beta serverError_def respondWithAnalysis_def
           split: if_splits sum.splits option.splits)

text \<open>
  Claim C2, as the source has it. The handler charges the usage limiter before it reads the
  body. When it answers 400 for a missing or empty input, the state it leaves is the state
  it found with the usage store replaced by the one \<open>incrementUsage\<close> leaves for the
  caller's identifier: the usage log is as before, with the bypass flag set to \<open>true\<close> the
  whole state is as before, and otherwise the caller's count of the day has gone up by one.
\<close>

theorem POST_bad_request_charges_usage:
  assumes "fst (POST deps req st) = Response400 msg"
  shows "msg = ''Input is required.''
   \<and> snd (POST deps req st) =
       st\<lparr>usageStore := snd (incrementUsage (disableUsageLimits deps) (clockNow deps)
                (requestIdentifier req) (session_user_email req \<noteq> None) (usageStore st))\<rparr>
   \<and> categoryUsageLog (snd (POST deps req st)) = categoryUsageLog st
   \<and> (disableUsageLimits deps = Some ''true'' \<longrightarrow> snd (POST deps req st) = st)
   \<and> (disableUsageLimits deps \<noteq> Some ''true'' \<longrightarrow>
        count_today (clockNow deps) (usageStore (snd (POST deps req st))) (requestIdentifier req) =
          count_today (clockNow deps) (usageStore st) (requestIdentifier req) + 1)"
proof (intro conjI impI)
  note s = POST_400_state[OF assms]
  show "msg = ''Input is required.''"
    by (rule POST_400_message[OF assms])
  show "snd (POST deps req st) =
       st\<lparr>usageStore := snd (incrementUsage (disableUsageLimits deps) (clockNow deps)
                (requestIdentifier req) (session_user_email req \<noteq> None) (usageStore st))\<rparr>"
    by (rule s)
  show "categoryUsageLog (snd (POST deps req st)) = categoryUsageLog st"
    unfolding s by simp
  show "snd (POST deps req st) = st" if "disableUsageLimits deps = Some ''true''"
    unfolding s using that by (simp add: incrementUsage_disabled)
  show "count_today (clockNow deps) (usageStore (snd (POST deps req st))) (requestIdentifier req) =
          count_today (clockNow deps) (usageStore st) (requestIdentifier req) + 1"
    if "disableUsageLimits deps \<noteq> Some ''true''"
    unfolding s using count_today_incrementUsage[OF that] by simp
qed

theorem POST_bad_request_charges_usage_witness:
  "fst (POST example_deps empty_input_request fresh_state) = Response400 ''Input is required.''
   \<and> categoryUsageLog (snd (POST example_deps empty_input_request fresh_state)) = []
   \<and> count_today (clockNow example_deps)
        (usageStore (snd (POST example_deps empty_input_request fresh_state)))
        (requestIdentifier empty_input_request) = 1"
proof -
  have r: "fst (POST example_deps empty_input_request fresh_state) = Response400 ''Input is required.''"
    by (simp add: POST_def example_deps_def empty_input_request_def fresh_state_def
        requestIdentifier_def orElse_def incrementUsage_def getLimit_def ANONYMOUS_LIMIT_def
        getCurrentDateAsNumber_def readInput_def str_includes_def sublist_code Let_def)
  have f: "disableUsageLimits example_deps \<noteq> Some ''true''"
    "categoryUsageLog fresh_state = []"
    "count_today (clockNow example_deps) (usageStore fresh_state)
       (requestIdentifier empty_input_request) = 0"
    by (simp_all add: example_deps_def fresh_state_def count_today_def)
  note t = POST_bad_request_charges_usage [OF r]
  have l: "categoryUsageLog (snd (POST example_deps empty_input_request fresh_state)) = []"
    using t [THEN conjunct2, THEN conjunct2, THEN conjunct1] f(2) by simp
  have c: "count_today (clockNow example_deps)
        (usageStore (snd (POST example_deps empty_input_request fresh_state)))
        (requestIdentifier empty_input_request) = 1"
    using t [THEN conjunct2, THEN conjunct2, THEN conjunct2, THEN conjunct2, rule_format, OF f(1)]
      f(3) by simp
  show ?thesis
    by (intro conjI r l c)
qed

text \<open>
  The claim as the specification words it (a rejected request changes no state that later
  requests can observe) fails. An anonymous caller without an entry in the usage store sends
  an empty input: the answer is 400 and the store now holds count 1 for the caller. The
  caller's next request, a valid one, is answered 429, while the same request on the state
  before the rejected one is answered 200.
\<close>

theorem POST_bad_request_no_side_effect_counterexample:
  "fst (POST example_deps empty_input_request fresh_state) = Response400 ''Input is required.''
   \<and> usageStore fresh_state ''10.0.0.1-curl'' = None
   \<and> usageStore (snd (POST example_deps empty_input_request fresh_state)) ''10.0.0.1-curl'' =
       Some \<lparr>count = 1, date = 20250105\<rparr>
   \<and> (case fst (POST example_deps teether_request fresh_state) of
         Response200 analysis \<Rightarrow> True | _ \<Rightarrow> False)
   \<and> fst (POST example_deps teether_request
             (snd (POST example_deps empty_input_request fresh_state))) =
       Response429 ''quota_exceeded'' ''anonymous_daily_limit''
         ''You have exceeded the number of free analyses for today.''"
proof (intro conjI)
  show "fst (POST example_deps empty_input_request fresh_state) = Response400 ''Input is required.''"
    "usageStore fresh_state ''10.0.0.1-curl'' = None"
    "usageStore (snd (POST example_deps empty_input_request fresh_state)) ''10.0.0.1-curl'' =
       Some \<lparr>count = 1, date = 20250105\<rparr>"
    "fst (POST example_deps teether_request
             (snd (POST example_deps empty_input_request fresh_state))) =
       Response429 ''quota_exceeded'' ''anonymous_daily_limit''
         ''You have exceeded the number of free analyses for today.''"
    by (simp_all add: POST_def example_deps_def empty_input_request_def teether_request_def
        fresh_state_def requestIdentifier_def orElse_def incrementUsage_def getLimit_def
        ANONYMOUS_LIMIT_def getCurrentDateAsNumber_def readInput_def str_includes_def
        sublist_code Let_def)
  show "case fst (POST example_deps teether_request fresh_state) of
         Response200 analysis \<Rightarrow> True | _ \<Rightarrow> False"
    by (simp add: POST_def example_deps_def teether_request_def
        fresh_state_def requestIdentifier_def orElse_def incrementUsage_def getLimit_def
        ANONYMOUS_LIMIT_def getCurrentDateAsNumber_def readInput_def str_includes_def
        sublist_code respondWithAnalysis_def Let_def)
qed


section \<open>Properties of the initial order cost\<close>

lemma estimateInitialOrderCost_fields:
  "unitCost (estimateInitialOrderCost analysis) =
     parseCurrency (landed_cost (landed_cost_breakdown analysis))"
  "moq (estimateInitialOrderCost analysis) = Finite 500"
  "minimumOrderCost (estimateInitialOrderCost analysis) =
     js_mul (unitCost (estimateInitialOrderCost analysis)) (Finite 500)"
  "testingCostTotal (estimateInitialOrderCost analysis) =
     (case testing_cost_estimate analysis of
        None \<Rightarrow> Finite 0
      | Some items \<Rightarrow> foldl js_add (Finite 0) (map high items))"
  "totalInitialCost (estimateInitialOrderCost analysis) =
     js_add (minimumOrderCost (estimateInitialOrderCost analysis))
            (testingCostTotal (estimateInitialOrderCost analysis))"
  by (simp_all add: estimateInitialOrderCost_def Let_def foldl_map split: option.splits)

lemma roundHalfEven_of_int: "roundHalfEven (of_int k) = k"
  by (simp add: roundHalfEven_def)

lemma toDouble_of_int_exact:
  assumes "0 < n" "n < 2 ^ 53"
  shows "toDouble (of_int n) = Finite (of_int n)"
proof -
  define e where "e = bitlen n - 1"
  have b: "2 ^ nat e \<le> n" "n < 2 ^ nat (e + 1)"
    using bitlen_bounds[OF assms(1)] by (simp_all add: e_def)
  have e0: "0 \<le> e"
    using assms(1) bitlen_nonneg[of n] by (auto simp: e_def bitlen_alt_def)
  have lt: "(2::int) ^ nat e < 2 ^ 53"
    using b(1) assms(2) by linarith
  have "nat e < 53"
    by (rule power_less_imp_less_exp[of "2::int"]) (simp, rule lt)
  then have e52: "e \<le> 52"
    by linarith
  have q: "quotient_of (of_int n) = (n, 1)"
    by simp
  have p: "pow2 e \<le> of_int n"
  proof -
    have "(of_int (2 ^ nat e) :: rat) \<le> of_int n"
      using b(1) by (simp only: of_int_le_iff)
    then show ?thesis
      using e0 by (simp add: pow2_def)
  qed
  have one: "bitlen 1 = 1"
    by (simp add: bitlen_alt_def)
  have bin: "binade (of_int n) = e"
    using p by (simp add: binade_def q e_def one Let_def)
  have ulp: "pow2 (e - 52) = 1 / 2 ^ nat (52 - e)"
    using e52 by (auto simp: pow2_def)
  have "(of_int n :: rat) / pow2 (e - 52) = of_int (n * 2 ^ nat (52 - e))"
    by (simp add: ulp)
  then have m: "roundHalfEven ((of_int n :: rat) / pow2 (e - 52)) = n * 2 ^ nat (52 - e)"
    by (simp only: roundHalfEven_of_int)
  have pos: "(0::rat) < of_int n" "\<bar>of_int n :: rat\<bar> = of_int n" "(of_int n :: rat) \<noteq> 0"
    using assms(1) by simp_all
  have mx: "max e (- 1022) = e"
    using e0 by simp
  show ?thesis
    unfolding toDouble_def Let_def pos(2) bin mx m
    using pos e52 e0 by (simp add: ulp)
qed

lemma js_add_whole:
  assumes "a + b < 2 ^ 53"
  shows "js_add (Finite (of_nat a)) (Finite (of_nat b)) = Finite (of_nat (a + b))"
proof (cases "a + b = 0")
  case True
  then show ?thesis by (simp add: toDouble_def)
next
  case False
  have lt: "int (a + b) < 2 ^ 53"
    using assms by (metis of_nat_less_iff of_nat_numeral of_nat_power)
  have pos: "0 < int (a + b)"
    using False by linarith
  have "toDouble (of_int (int (a + b))) = Finite (of_int (int (a + b)))"
    using pos lt by (rule toDouble_of_int_exact)
  then show ?thesis by simp
qed

lemma js_sum_whole:
  "acc + sum_list hs < 2 ^ 53 \<Longrightarrow>
   foldl js_add (Finite (of_nat acc)) (map (\<lambda>h. Finite (of_nat h)) hs) =
     Finite (of_nat (acc + sum_list hs))"
proof (induction hs arbitrary: acc)
  case Nil
  then show ?case by simp
next
  case (Cons h hs)
  from Cons.prems have "acc + h < 2 ^ 53"
    by simp
  then have "js_add (Finite (of_nat acc)) (Finite (of_nat h)) = Finite (of_nat (acc + h))"
    by (rule js_add_whole)
  moreover have "foldl js_add (Finite (of_nat (acc + h))) (map (\<lambda>h. Finite (of_nat h)) hs) =
      Finite (of_nat (acc + h + sum_list hs))"
    by (rule Cons.IH) (use Cons.prems in \<open>simp add: add.assoc\<close>)
  ultimately show ?case
    by (simp add: add.assoc)
qed

lemma parseCurrency_2_91: "parseCurrency ''$2.91'' = Finite (819092182228009 / 281474976710656)"
  by code_simp

lemma order_of_500_at_2_91:
  "js_mul (Finite (819092182228009 / 281474976710656)) (Finite 500) = Finite 1455"
  by code_simp

lemma order_plus_testing_970: "js_add (Finite 1455) (Finite 970) = Finite 2425"
  by code_simp

text \<open>
  Claim C7. The unit cost is the landed-cost string with everything but digits, dots and
  minus signs removed, read as a number; the quantity is the constant 500; the minimum order
  cost is their product, and the total is that product plus the sum, from zero and in order,
  of the high bounds of the testing-cost items (zero when there is no estimate); for bounds in
  whole dollars that sum is exact as long as it stays below \<open>2^53\<close>. For the landed cost
  \<open>$2.91\<close> and high bounds that sum to 970 the results are 1455 and 2425 exactly, in double
  arithmetic.
\<close>

theorem estimateInitialOrderCost_rollup:
  "unitCost (estimateInitialOrderCost analysis) =
     parseFloat (filter (\<lambda>c. isDigit c \<or> c = CHR ''.'' \<or> c = CHR ''-'')
                   (landed_cost (landed_cost_breakdown analysis)))
   \<and> moq (estimateInitialOrderCost analysis) = Finite 500
   \<and> minimumOrderCost (estimateInitialOrderCost analysis) =
       js_mul (unitCost (estimateInitialOrderCost analysis)) (Finite 500)
   \<and> testingCostTotal (estimateInitialOrderCost analysis) =
       (case testing_cost_estimate analysis of
          None \<Rightarrow> Finite 0
        | Some items \<Rightarrow> foldl js_add (Finite 0) (map high items))
   \<and> totalInitialCost (estimateInitialOrderCost analysis) =
       js_add (minimumOrderCost (estimateInitialOrderCost analysis))
              (testingCostTotal (estimateInitialOrderCost analysis))
   \<and> (testing_cost_estimate analysis = Some items \<and>
       map high items = map (\<lambda>h. Finite (of_nat h)) highs \<and> sum_list highs < 2 ^ 53
        \<longrightarrow> testingCostTotal (estimateInitialOrderCost analysis) = Finite (of_nat (sum_list highs)))
   \<and> (landed_cost (landed_cost_breakdown analysis) = ''$2.91'' \<and>
       testingCostTotal (estimateInitialOrderCost analysis) = Finite 970
        \<longrightarrow> minimumOrderCost (estimateInitialOrderCost analysis) = Finite 1455 \<and>
            totalInitialCost (estimateInitialOrderCost analysis) = Finite 2425)"
proof (intro conjI impI)
  assume w: "testing_cost_estimate analysis = Some items \<and>
       map high items = map (\<lambda>h. Finite (of_nat h)) highs \<and> sum_list highs < 2 ^ 53"
  then have "0 + sum_list highs < 2 ^ 53"
    by simp
  then have "foldl js_add (Finite (of_nat 0)) (map (\<lambda>h. Finite (of_nat h)) highs) =
      Finite (of_nat (0 + sum_list highs))"
    by (rule js_sum_whole)
  then show "testingCostTotal (estimateInitialOrderCost analysis) = Finite (of_nat (sum_list highs))"
    using w by (simp add: estimateInitialOrderCost_fields(4))
next
  show "unitCost (estimateInitialOrderCost analysis) =
     parseFloat (filter (\<lambda>c. isDigit c \<or> c = CHR ''.'' \<or> c = CHR ''-'')
                   (landed_cost (landed_cost_breakdown analysis)))"
    by (simp add: estimateInitialOrderCost_fields parseCurrency_def)
  show "moq (estimateInitialOrderCost analysis) = Finite 500"
    by (rule estimateInitialOrderCost_fields)
  show "minimumOrderCost (estimateInitialOrderCost analysis) =
       js_mul (unitCost (estimateInitialOrderCost analysis)) (Finite 500)"
    by (rule estimateInitialOrderCost_fields)
  show "testingCostTotal (estimateInitialOrderCost analysis) =
       (case testing_cost_estimate analysis of
          None \<Rightarrow> Finite 0
        | Some items \<Rightarrow> foldl js_add (Finite 0) (map high items))"
    by (rule estimateInitialOrderCost_fields)
  show "totalInitialCost (estimateInitialOrderCost analysis) =
       js_add (minimumOrderCost (estimateInitialOrderCost analysis))
              (testingCostTotal (estimateInitialOrderCost analysis))"
    by (rule estimateInitialOrderCost_fields)
next
  assume a: "landed_cost (landed_cost_breakdown analysis) = ''$2.91'' \<and>
       testingCostTotal (estimateInitialOrderCost analysis) = Finite 970"
  then have u: "unitCost (estimateInitialOrderCost analysis) =
                  Finite (819092182228009 / 281474976710656)"
    by (simp add: estimateInitialOrderCost_fields(1) parseCurrency_2_91)
  show m: "minimumOrderCost (estimateInitialOrderCost analysis) = Finite 1455"
    unfolding estimateInitialOrderCost_fields(3) u by (rule order_of_500_at_2_91)
  show "totalInitialCost (estimateInitialOrderCost analysis) = Finite 2425"
    unfolding estimateInitialOrderCost_fields(5) m a[THEN conjunct2]
    by (rule order_plus_testing_970)
qed

theorem estimateInitialOrderCost_rollup_witness:
  "minimumOrderCost (estimateInitialOrderCost
      (teether_analysis\<lparr>testing_cost_estimate :=
         Some [\<lparr>test = ''CPSIA Lead Content'', low = Finite 150, high = Finite 250\<rparr>,
               \<lparr>test = ''ASTM F963 Mechanical Hazards'', low = Finite 180, high = Finite 320\<rparr>,
               \<lparr>test = ''ASTM F963 Heavy Metals'', low = Finite 250, high = Finite 400\<rparr>]\<rparr>)) =
     Finite 1455
   \<and> totalInitialCost (estimateInitialOrderCost
      (teether_analysis\<lparr>testing_cost_estimate :=
         Some [\<lparr>test = ''CPSIA Lead Content'', low = Finite 150, high = Finite 250\<rparr>,
               \<lparr>test = ''ASTM F963 Mechanical Hazards'', low = Finite 180, high = Finite 320\<rparr>,
               \<lparr>test = ''ASTM F963 Heavy Metals'', low = Finite 250, high = Finite 400\<rparr>]\<rparr>)) =
     Finite 2425"
proof -
  let ?items = "[\<lparr>test = ''CPSIA Lead Content'', low = Finite 150, high = Finite 250\<rparr>,
               \<lparr>test = ''ASTM F963 Mechanical Hazards'', low = Finite 180, high = Finite 320\<rparr>,
               \<lparr>test = ''ASTM F963 Heavy Metals'', low = Finite 250, high = Finite 400\<rparr>]"
  let ?a = "teether_analysis\<lparr>testing_cost_estimate := Some ?items\<rparr>"
  have t: "testing_cost_estimate ?a = Some ?items"
    by simp
  have w: "map high ?items = map (\<lambda>h. Finite (of_nat h)) [250, 320, 400] \<and>
           sum_list [250, 320, 400 :: nat] < 2 ^ 53"
    by simp
  have l: "landed_cost (landed_cost_breakdown ?a) = ''$2.91''"
    by (simp add: teether_analysis_def)
  note r = estimateInitialOrderCost_rollup [of ?a ?items "[250, 320, 400]"]
  have "testingCostTotal (estimateInitialOrderCost ?a) = Finite (of_nat (sum_list [250, 320, 400]))"
    using r t w by blast
  then have "testingCostTotal (estimateInitialOrderCost ?a) = Finite 970"
    by simp
  with l show ?thesis
    using r by blast
qed


section \<open>Properties of the knowledge store merge\<close>

lemma findIndex_None_iff: "findIndex p xs = None \<longleftrightarrow> (\<forall>x \<in> set xs. \<not> p x)"
  by (induction xs) auto

lemma findIndex_Some_less: "findIndex p xs = Some i \<Longrightarrow> i < length xs \<and> p (xs ! i)"
  by (induction xs arbitrary: i) (auto split: if_splits)

lemma findIndex_update_same:
  "findIndex p xs = Some i \<Longrightarrow> p y \<Longrightarrow> findIndex p (xs[i := y]) = Some i"
  by (induction xs arbitrary: i) (auto split: if_splits)

lemma findIndex_append_new:
  "findIndex p xs = None \<Longrightarrow> p y \<Longrightarrow> findIndex p (xs @ [y]) = Some (length xs)"
  by (induction xs) (auto split: if_splits)

lemma map_update_same_key:
  "findIndex (\<lambda>c. f c = k) xs = Some i \<Longrightarrow> f y = k \<Longrightarrow> map f (xs[i := y]) = map f xs"
  by (induction xs arbitrary: i) (auto split: if_splits)

lemma mergeCategory_ids:
  "map idOf (snd (mergeCategory idOf json cats)) =
     (if idOf json \<in> set (map idOf cats) then map idOf cats else map idOf cats @ [idOf json])"
proof (cases "findIndex (\<lambda>c. idOf c = idOf json) cats")
  case None
  then have "idOf json \<notin> set (map idOf cats)"
    by (auto simp: findIndex_None_iff)
  with None show ?thesis
    by (simp add: mergeCategory_def)
next
  case (Some i)
  then have "i < length cats" "idOf (cats ! i) = idOf json"
    using findIndex_Some_less[of "\<lambda>c. idOf c = idOf json" cats i] by simp_all
  then have "idOf json \<in> set (map idOf cats)"
    by (metis image_eqI nth_mem set_map)
  with Some show ?thesis
    by (simp add: mergeCategory_def map_update_same_key)
qed

lemma mergeCategory_member: "json \<in> set (snd (mergeCategory idOf json cats))"
  by (auto simp: mergeCategory_def set_update_memI dest: findIndex_Some_less split: option.splits)

lemma mergeCategory_again:
  "mergeCategory idOf json (snd (mergeCategory idOf json cats)) =
     (''updated'', snd (mergeCategory idOf json cats))"
proof (cases "findIndex (\<lambda>c. idOf c = idOf json) cats")
  case None
  then show ?thesis
    by (simp add: mergeCategory_def findIndex_append_new)
next
  case (Some i)
  then show ?thesis
    by (simp add: mergeCategory_def findIndex_update_same)
qed

lemma ensureFileExists_categories:
  "ensureFileExists file sample = Inr content \<Longrightarrow> categories content = storedCategories file"
  by (auto simp: ensureFileExists_def storedCategories_def split: option.splits)

lemma ensureFileExists_present: "ensureFileExists (Some content) sample = Inr content"
  by (simp add: ensureFileExists_def)

lemma mergeIntoFiles_success:
  assumes "mergeIntoFiles complianceJson factoryJson fs = (Inr statuses, fs')"
  obtains complianceData factoryData where
    "ensureFileExists (complianceFile fs) (complianceSample fs) = Inr complianceData"
    "ensureFileExists (factoryFile fs) (factorySample fs) = Inr factoryData"
    "fs' = fs\<lparr>complianceFile :=
                 Some (complianceData\<lparr>categories :=
                         snd (mergeCategory rule_id complianceJson (categories complianceData))\<rparr>),
               factoryFile :=
                 Some (factoryData\<lparr>categories :=
                         snd (mergeCategory hints_id factoryJson (categories factoryData))\<rparr>)\<rparr>"
  using assms
  by (auto simp: mergeIntoFiles_def Let_def split_beta split: sum.splits)

lemma mergeIntoFiles_stored:
  assumes "mergeIntoFiles complianceJson factoryJson fs = (Inr statuses, fs')"
  shows "storedCategories (complianceFile fs') =
           snd (mergeCategory rule_id complianceJson (storedCategories (complianceFile fs)))"
    and "storedCategories (factoryFile fs') =
           snd (mergeCategory hints_id factoryJson (storedCategories (factoryFile fs)))"
proof -
  from assms obtain complianceData factoryData where
    e: "ensureFileExists (complianceFile fs) (complianceSample fs) = Inr complianceData"
       "ensureFileExists (factoryFile fs) (factorySample fs) = Inr factoryData"
    and f: "fs' = fs\<lparr>complianceFile :=
                 Some (complianceData\<lparr>categories :=
                         snd (mergeCategory rule_id complianceJson (categories complianceData))\<rparr>),
               factoryFile :=
                 Some (factoryData\<lparr>categories :=
                         snd (mergeCategory hints_id factoryJson (categories factoryData))\<rparr>)\<rparr>"
    by (rule mergeIntoFiles_success)
  show "storedCategories (complianceFile fs') =
           snd (mergeCategory rule_id complianceJson (storedCategories (complianceFile fs)))"
    unfolding f using ensureFileExists_categories[OF e(1)] by (simp add: storedCategories_def)
  show "storedCategories (factoryFile fs') =
           snd (mergeCategory hints_id factoryJson (storedCategories (factoryFile fs)))"
    unfolding f using ensureFileExists_categories[OF e(2)] by (simp add: storedCategories_def)
qed

lemma mergeIntoFiles_again:
  assumes "mergeIntoFiles complianceJson factoryJson fs = (Inr statuses, fs')"
  shows "mergeIntoFiles complianceJson factoryJson fs' =
           (Inr \<lparr>compliance_status = ''updated'', factory_status = ''updated''\<rparr>, fs')"
proof -
  from assms obtain complianceData factoryData where
    f: "fs' = fs\<lparr>complianceFile :=
                 Some (complianceData\<lparr>categories :=
                         snd (mergeCategory rule_id complianceJson (categories complianceData))\<rparr>),
               factoryFile :=
                 Some (factoryData\<lparr>categories :=
                         snd (mergeCategory hints_id factoryJson (categories factoryData))\<rparr>)\<rparr>"
    by (rule mergeIntoFiles_success)
  show ?thesis
    unfolding f
    by (simp add: mergeIntoFiles_def ensureFileExists_present mergeCategory_again Let_def)
qed

lemma mergeCategory_in_place:
  "snd (mergeCategory idOf json cats) =
     (case findIndex (\<lambda>c. idOf c = idOf json) cats of
        Some index \<Rightarrow> cats[index := json]
      | None \<Rightarrow> cats @ [json])"
  by (simp add: mergeCategory_def split: option.splits)

lemma mergeCategory_distinct:
  "distinct (map idOf cats) \<Longrightarrow> distinct (map idOf (snd (mergeCategory idOf json cats)))"
  unfolding mergeCategory_ids by simp

text \<open>
  Claim C8. Whenever a merge succeeds, merging the same two records again succeeds with both
  statuses \<open>updated\<close> and leaves every file exactly as the first merge left it. In each
  document the record replaces the first record with its identifier, at that index, or is
  added at the end when no record has its identifier; so the sequence of identifiers is
  unchanged in the first case and one longer in the second, the record is in the document
  afterwards, and identifiers that were distinct before are distinct afterwards.
\<close>

theorem mergeIntoFiles_idempotent:
  assumes "mergeIntoFiles complianceJson factoryJson fs = (Inr statuses, fs')"
  shows "mergeIntoFiles complianceJson factoryJson fs' =
           (Inr \<lparr>compliance_status = ''updated'', factory_status = ''updated''\<rparr>, fs')
   \<and> storedCategories (complianceFile fs') =
       (case findIndex (\<lambda>c. rule_id c = rule_id complianceJson) (storedCategories (complianceFile fs)) of
          Some index \<Rightarrow> (storedCategories (complianceFile fs))[index := complianceJson]
        | None \<Rightarrow> storedCategories (complianceFile fs) @ [complianceJson])
   \<and> storedCategories (factoryFile fs') =
       (case findIndex (\<lambda>c. hints_id c = hints_id factoryJson) (storedCategories (factoryFile fs)) of
          Some index \<Rightarrow> (storedCategories (factoryFile fs))[index := factoryJson]
        | None \<Rightarrow> storedCategories (factoryFile fs) @ [factoryJson])
   \<and> map rule_id (storedCategories (complianceFile fs')) =
       (if rule_id complianceJson \<in> set (map rule_id (storedCategories (complianceFile fs)))
        then map rule_id (storedCategories (complianceFile fs))
        else map rule_id (storedCategories (complianceFile fs)) @ [rule_id complianceJson])
   \<and> map hints_id (storedCategories (factoryFile fs')) =
       (if hints_id factoryJson \<in> set (map hints_id (storedCategories (factoryFile fs)))
        then map hints_id (storedCategories (factoryFile fs))
        else map hints_id (storedCategories (factoryFile fs)) @ [hints_id factoryJson])
   \<and> complianceJson \<in> set (storedCategories (complianceFile fs'))
   \<and> factoryJson \<in> set (storedCategories (factoryFile fs'))
   \<and> (distinct (map rule_id (storedCategories (complianceFile fs)))
        \<longrightarrow> distinct (map rule_id (storedCategories (complianceFile fs'))))
   \<and> (distinct (map hints_id (storedCategories (factoryFile fs)))
        \<longrightarrow> distinct (map hints_id (storedCategories (factoryFile fs'))))"
proof -
  note s = mergeIntoFiles_stored[OF assms]
  show ?thesis
    unfolding s
    by (intro conjI impI mergeIntoFiles_again[OF assms] mergeCategory_in_place
          mergeCategory_ids mergeCategory_member mergeCategory_distinct)
qed

theorem mergeIntoFiles_idempotent_witness:
  "mergeIntoFiles baby_teether_rule baby_teether_hints
     (snd (mergeIntoFiles baby_teether_rule baby_teether_hints example_files)) =
     (Inr \<lparr>compliance_status = ''updated'', factory_status = ''updated''\<rparr>,
      snd (mergeIntoFiles baby_teether_rule baby_teether_hints example_files))
   \<and> storedCategories (complianceFile
        (snd (mergeIntoFiles baby_teether_rule baby_teether_hints example_files))) =
     [tumbler_rule, baby_teether_rule]
   \<and> storedCategories (factoryFile
        (snd (mergeIntoFiles baby_teether_rule baby_teether_hints example_files))) =
     [baby_teether_hints]"
proof -
  have m: "mergeIntoFiles baby_teether_rule baby_teether_hints example_files =
      (Inr \<lparr>compliance_status = ''updated'', factory_status = ''created''\<rparr>,
       snd (mergeIntoFiles baby_teether_rule baby_teether_hints example_files))"
    by (simp add: mergeIntoFiles_def example_files_def ensureFileExists_def mergeCategory_def
          tumbler_rule_def baby_teether_rule_def baby_teether_hints_def Let_def)
  have b: "storedCategories (complianceFile example_files) =
             [tumbler_rule, baby_teether_rule\<lparr>label := ''Teether''\<rparr>]"
    "storedCategories (factoryFile example_files) = []"
    by (simp_all add: example_files_def storedCategories_def)
  have i: "findIndex (\<lambda>c. rule_id c = rule_id baby_teether_rule)
             [tumbler_rule, baby_teether_rule\<lparr>label := ''Teether''\<rparr>] = Some (Suc 0)"
    by (simp add: tumbler_rule_def baby_teether_rule_def)
  have j: "findIndex (\<lambda>c. hints_id c = hints_id baby_teether_hints) [] = None"
    by simp
  note t = mergeIntoFiles_idempotent [OF m]
  have c: "storedCategories (complianceFile
        (snd (mergeIntoFiles baby_teether_rule baby_teether_hints example_files))) =
     [tumbler_rule, baby_teether_rule]"
    using t [THEN conjunct2, THEN conjunct1, unfolded b i option.case] by simp
  have f: "storedCategories (factoryFile
        (snd (mergeIntoFiles baby_teether_rule baby_teether_hints example_files))) =
     [baby_teether_hints]"
    using t [THEN conjunct2, THEN conjunct2, THEN conjunct1, unfolded b j option.case] by simp
  show ?thesis
    by (intro conjI t [THEN conjunct1] c f)
qed

end
